theory Spec2Isabelle
  imports Main "HOL-Library.Word"
begin

section \<open>Python values, errors and byte strings\<close>

text \<open>
  A byte string is a list of 8-bit words. Python integers are unbounded, so they are
  \<^typ>\<open>int\<close>; a count or a length is a \<^typ>\<open>nat\<close>. Every exception the code or the
  library below it can raise is a constructor of \<open>pyerror\<close>, and a call that can raise
  returns \<open>pyerror + 'a\<close> with \<open>Inl\<close> for the exception.
\<close>

type_synonym byte = "8 word"

datatype pyerror = KeyError | AttributeError | IndexError | TypeError | ValueError
  | AssertionError | StructError | SerializationError | SerializationTruncationError
  | UnknownOpcodeError

text \<open>
  The fixed-shape records of python-bitcoinlib: an outpoint (hash, n), an input and an
  output. The two fields of \<open>COutPoint\<close> carry the prefix \<open>op_\<close>.
\<close>

record COutPoint =
  op_hash :: "byte list"
  op_n :: int

record CTxIn =
  prevout :: COutPoint
  scriptSig :: "byte list"
  nSequence :: int

record CTxOut =
  nValue :: int
  scriptPubKey :: "byte list"

text \<open>The values an attribute of a transaction holds.\<close>

datatype pyval = PyNone | PyInt int | PyBytes "byte list" | PyTxIns "CTxIn list"
  | PyTxOuts "CTxOut list"

section \<open>The library under the codec: struct, ser_read and the serializers\<close>

text \<open>Little-endian encoding of a natural number on \<open>k\<close> bytes, and its decoding.\<close>

fun le_encode :: "nat \<Rightarrow> nat \<Rightarrow> byte list" where
  "le_encode 0 v = []"
| "le_encode (Suc k) v = word_of_nat (v mod 256) # le_encode k (v div 256)"

fun le_decode :: "byte list \<Rightarrow> nat" where
  "le_decode [] = 0"
| "le_decode (b # bs) = unat b + 256 * le_decode bs"

text \<open>
  Python's \<open>struct\<close> module, for the format strings of one integer in a stated byte
  order: \<open><\<close> is little-endian, \<open>>\<close> and \<open>!\<close> are big-endian, all with the standard
  sizes. The table gives (big-endian, signed, size in bytes). The presets use \<open><i\<close> and
  \<open><I\<close> only, the serializers also \<open><H\<close>, \<open><q\<close> and \<open><Q\<close>. Formats in native order or
  of several items are not in the table and are answered with \<open>struct.error\<close>.
  \<open>struct.pack\<close> raises \<open>struct.error\<close> when the value is not an integer or does not fit
  the format; \<open>struct.unpack\<close> raises it when the data has not exactly the format's size.
\<close>

definition struct_formats :: "(string \<times> (bool \<times> bool \<times> nat)) list" where
  "struct_formats =
    [(''<b'', (False, True, 1)), (''<B'', (False, False, 1)),
     (''<h'', (False, True, 2)), (''<H'', (False, False, 2)),
     (''<i'', (False, True, 4)), (''<I'', (False, False, 4)),
     (''<l'', (False, True, 4)), (''<L'', (False, False, 4)),
     (''<q'', (False, True, 8)), (''<Q'', (False, False, 8)),
     (''>b'', (True, True, 1)), (''>B'', (True, False, 1)),
     (''>h'', (True, True, 2)), (''>H'', (True, False, 2)),
     (''>i'', (True, True, 4)), (''>I'', (True, False, 4)),
     (''>l'', (True, True, 4)), (''>L'', (True, False, 4)),
     (''>q'', (True, True, 8)), (''>Q'', (True, False, 8)),
     (''!b'', (True, True, 1)), (''!B'', (True, False, 1)),
     (''!h'', (True, True, 2)), (''!H'', (True, False, 2)),
     (''!i'', (True, True, 4)), (''!I'', (True, False, 4)),
     (''!l'', (True, True, 4)), (''!L'', (True, False, 4)),
     (''!q'', (True, True, 8)), (''!Q'', (True, False, 8))]"

definition byte_order :: "bool \<Rightarrow> byte list \<Rightarrow> byte list" where
  "byte_order big_endian bs = (if big_endian then rev bs else bs)"

definition int_fits :: "bool \<Rightarrow> nat \<Rightarrow> int \<Rightarrow> bool" where
  "int_fits sg w i =
    (if sg then - (2 ^ (8 * w - 1)) \<le> i \<and> i < 2 ^ (8 * w - 1) else 0 \<le> i \<and> i < 2 ^ (8 * w))"

definition struct_pack :: "string \<Rightarrow> pyval \<Rightarrow> pyerror + byte list" where
  "struct_pack fmt v =
    (case map_of struct_formats fmt of
       None \<Rightarrow> Inl StructError
     | Some (be, sg, w) \<Rightarrow>
        (case v of
           PyInt i \<Rightarrow>
             if int_fits sg w i then Inr (byte_order be (le_encode w (nat (i mod 2 ^ (8 * w)))))
             else Inl StructError
         | _ \<Rightarrow> Inl StructError))"

definition struct_unpack :: "string \<Rightarrow> byte list \<Rightarrow> pyerror + int" where
  "struct_unpack fmt d =
    (case map_of struct_formats fmt of
       None \<Rightarrow> Inl StructError
     | Some (be, sg, w) \<Rightarrow>
        if length d \<noteq> w then Inl StructError
        else (let u = int (le_decode (byte_order be d))
              in Inr (if sg \<and> 2 ^ (8 * w - 1) \<le> u then u - 2 ^ (8 * w) else u)))"

text \<open>
  \<open>ser_read(f, n)\<close> of bitcoin.core.serialize: the stream \<open>f\<close> is the list of the bytes
  still to read; the result is the bytes read and the stream after them.
  \<^verbatim>\<open>
  if n > MAX_SIZE: raise SerializationError(...)
  r = f.read(n)
  if len(r) < n: raise SerializationTruncationError(...)
  return r
  \<close>
  With \<open>n = None\<close> (a field whose num_bytes is None) Python 2 orders None below every
  integer, so neither test fires and \<open>f.read(None)\<close> returns the whole rest.
\<close>

definition MAX_SIZE :: nat where
  "MAX_SIZE = 0x02000000"

definition ser_read :: "byte list \<Rightarrow> nat option \<Rightarrow> pyerror + (byte list \<times> byte list)" where
  "ser_read f n =
    (case n of
       None \<Rightarrow> Inr (f, [])
     | Some k \<Rightarrow>
        if k > MAX_SIZE then Inl SerializationError
        else if length f < k then Inl SerializationTruncationError
        else Inr (take k f, drop k f))"

text \<open>
  The idiom \<open>struct.unpack(fmt, ser_read(f, n))[0]\<close>: the argument is evaluated first, so
  a short stream is reported before a bad format.
\<close>

definition unpack_from :: "string \<Rightarrow> nat option \<Rightarrow> byte list \<Rightarrow> pyerror + (int \<times> byte list)" where
  "unpack_from fmt n f =
    (case ser_read f n of
       Inl e \<Rightarrow> Inl e
     | Inr (d, f1) \<Rightarrow>
        (case struct_unpack fmt d of Inl e \<Rightarrow> Inl e | Inr v \<Rightarrow> Inr (v, f1)))"

text \<open>\<open>VarIntSerializer\<close>: the variable-length integer in front of a blob or a vector.\<close>

definition VarInt_stream_serialize :: "nat \<Rightarrow> pyerror + byte list" where
  "VarInt_stream_serialize i =
    (if i < 0xfd then Inr [word_of_nat i]
     else if i \<le> 0xffff then
       (case struct_pack ''<H'' (PyInt (int i)) of Inl e \<Rightarrow> Inl e | Inr bs \<Rightarrow> Inr (0xfd # bs))
     else if i \<le> 0xffffffff then
       (case struct_pack ''<I'' (PyInt (int i)) of Inl e \<Rightarrow> Inl e | Inr bs \<Rightarrow> Inr (0xfe # bs))
     else
       (case struct_pack ''<Q'' (PyInt (int i)) of Inl e \<Rightarrow> Inl e | Inr bs \<Rightarrow> Inr (0xff # bs)))"

definition VarInt_stream_deserialize :: "byte list \<Rightarrow> pyerror + (nat \<times> byte list)" where
  "VarInt_stream_deserialize f =
    (case ser_read f (Some 1) of
       Inl e \<Rightarrow> Inl e
     | Inr (d, f1) \<Rightarrow>
        (let r = le_decode d
         in if r < 0xfd then Inr (r, f1)
            else (case (if r = 0xfd then unpack_from ''<H'' (Some 2) f1
                        else if r = 0xfe then unpack_from ''<I'' (Some 4) f1
                        else unpack_from ''<Q'' (Some 8) f1) of
                    Inl e \<Rightarrow> Inl e
                  | Inr (v, f2) \<Rightarrow> Inr (nat v, f2))))"

text \<open>\<open>BytesSerializer\<close>: a length-prefixed blob.\<close>

definition Bytes_stream_serialize :: "byte list \<Rightarrow> pyerror + byte list" where
  "Bytes_stream_serialize b =
    (case VarInt_stream_serialize (length b) of Inl e \<Rightarrow> Inl e | Inr p \<Rightarrow> Inr (p @ b))"

definition Bytes_stream_deserialize :: "byte list \<Rightarrow> pyerror + (byte list \<times> byte list)" where
  "Bytes_stream_deserialize f =
    (case VarInt_stream_deserialize f of
       Inl e \<Rightarrow> Inl e
     | Inr (l, f1) \<Rightarrow> ser_read f1 (Some l))"

text \<open>\<open>COutPoint\<close>, \<open>CTxIn\<close> and \<open>CTxOut\<close>: the fixed shape of inputs and outputs.\<close>

definition COutPoint_stream_serialize :: "COutPoint \<Rightarrow> pyerror + byte list" where
  "COutPoint_stream_serialize p =
    (if length (op_hash p) \<noteq> 32 then Inl AssertionError
     else (case struct_pack ''<I'' (PyInt (op_n p)) of
             Inl e \<Rightarrow> Inl e
           | Inr bs \<Rightarrow> Inr (op_hash p @ bs)))"

definition COutPoint_stream_deserialize :: "byte list \<Rightarrow> pyerror + (COutPoint \<times> byte list)" where
  "COutPoint_stream_deserialize f =
    (case ser_read f (Some 32) of
       Inl e \<Rightarrow> Inl e
     | Inr (h, f1) \<Rightarrow>
        (case unpack_from ''<I'' (Some 4) f1 of
           Inl e \<Rightarrow> Inl e
         | Inr (v, f2) \<Rightarrow> Inr (\<lparr>op_hash = h, op_n = v\<rparr>, f2)))"

definition CTxIn_stream_serialize :: "CTxIn \<Rightarrow> pyerror + byte list" where
  "CTxIn_stream_serialize x =
    (case COutPoint_stream_serialize (prevout x) of
       Inl e \<Rightarrow> Inl e
     | Inr a \<Rightarrow>
        (case Bytes_stream_serialize (scriptSig x) of
           Inl e \<Rightarrow> Inl e
         | Inr b \<Rightarrow>
            (case struct_pack ''<I'' (PyInt (nSequence x)) of
               Inl e \<Rightarrow> Inl e
             | Inr c \<Rightarrow> Inr (a @ b @ c))))"

definition CTxIn_stream_deserialize :: "byte list \<Rightarrow> pyerror + (CTxIn \<times> byte list)" where
  "CTxIn_stream_deserialize f =
    (case COutPoint_stream_deserialize f of
       Inl e \<Rightarrow> Inl e
     | Inr (p, f1) \<Rightarrow>
        (case Bytes_stream_deserialize f1 of
           Inl e \<Rightarrow> Inl e
         | Inr (s, f2) \<Rightarrow>
            (case unpack_from ''<I'' (Some 4) f2 of
               Inl e \<Rightarrow> Inl e
             | Inr (v, f3) \<Rightarrow> Inr (\<lparr>prevout = p, scriptSig = s, nSequence = v\<rparr>, f3))))"

definition CTxOut_stream_serialize :: "CTxOut \<Rightarrow> pyerror + byte list" where
  "CTxOut_stream_serialize x =
    (case struct_pack ''<q'' (PyInt (nValue x)) of
       Inl e \<Rightarrow> Inl e
     | Inr a \<Rightarrow>
        (case Bytes_stream_serialize (scriptPubKey x) of
           Inl e \<Rightarrow> Inl e
         | Inr b \<Rightarrow> Inr (a @ b)))"

definition CTxOut_stream_deserialize :: "byte list \<Rightarrow> pyerror + (CTxOut \<times> byte list)" where
  "CTxOut_stream_deserialize f =
    (case unpack_from ''<q'' (Some 8) f of
       Inl e \<Rightarrow> Inl e
     | Inr (v, f1) \<Rightarrow>
        (case Bytes_stream_deserialize f1 of
           Inl e \<Rightarrow> Inl e
         | Inr (s, f2) \<Rightarrow> Inr (\<lparr>nValue = v, scriptPubKey = s\<rparr>, f2)))"

text \<open>
  \<open>VectorSerializer\<close>: a count, then that many elements; \<open>inner\<close> is the element's own
  (de)serializer.
\<close>

fun serialize_all :: "('a \<Rightarrow> pyerror + byte list) \<Rightarrow> 'a list \<Rightarrow> pyerror + byte list" where
  "serialize_all inner [] = Inr []"
| "serialize_all inner (obj # objs) =
    (case inner obj of
       Inl e \<Rightarrow> Inl e
     | Inr a \<Rightarrow>
        (case serialize_all inner objs of Inl e \<Rightarrow> Inl e | Inr b \<Rightarrow> Inr (a @ b)))"

definition Vector_stream_serialize ::
    "('a \<Rightarrow> pyerror + byte list) \<Rightarrow> 'a list \<Rightarrow> pyerror + byte list" where
  "Vector_stream_serialize inner objs =
    (case VarInt_stream_serialize (length objs) of
       Inl e \<Rightarrow> Inl e
     | Inr p \<Rightarrow>
        (case serialize_all inner objs of Inl e \<Rightarrow> Inl e | Inr b \<Rightarrow> Inr (p @ b)))"

fun deserialize_n ::
    "(byte list \<Rightarrow> pyerror + ('a \<times> byte list)) \<Rightarrow> nat \<Rightarrow> byte list \<Rightarrow> pyerror + ('a list \<times> byte list)" where
  "deserialize_n inner 0 f = Inr ([], f)"
| "deserialize_n inner (Suc k) f =
    (case inner f of
       Inl e \<Rightarrow> Inl e
     | Inr (x, f1) \<Rightarrow>
        (case deserialize_n inner k f1 of
           Inl e \<Rightarrow> Inl e
         | Inr (xs, f2) \<Rightarrow> Inr (x # xs, f2)))"

definition Vector_stream_deserialize ::
    "(byte list \<Rightarrow> pyerror + ('a \<times> byte list)) \<Rightarrow> byte list \<Rightarrow> pyerror + ('a list \<times> byte list)" where
  "Vector_stream_deserialize inner f =
    (case VarInt_stream_deserialize f of
       Inl e \<Rightarrow> Inl e
     | Inr (n, f1) \<Rightarrow> deserialize_n inner n f1)"

section \<open>transaction.py: the Transaction class\<close>

text \<open>
  A field of a schema is the 4-tuple (attribute name, format, num_bytes, default) of the
  source. A transaction object holds its own list \<open>self.fields\<close> (here \<open>self_fields\<close>)
  and its other instance attributes, a dictionary from names to values. Attribute names are taken not to
  collide with members of the class (methods, \<open>fields\<close>).
\<close>

type_synonym field = "string \<times> string \<times> nat option \<times> pyval"

record Transaction =
  self_fields :: "field list"
  attrs :: "string \<rightharpoonup> pyval"

text \<open>
  Modelled from the spec: the handlers of opcodes are functions of the module
  \<open>opcodes\<close>, which is absent. A handler is kept as a label: the handler of the base
  table for an opcode value, or \<open>opcodes.clams_checklocktimeverify\<close>, the override that
  the Clams preset names.
\<close>

datatype stack_op = base_op nat | clams_checklocktimeverify

text \<open>
  The state of the process: the module globals \<open>transaction.transaction_fields\<close>,
  \<open>block.block_header_fields\<close>, \<open>block.block_fields\<close> and
  \<open>opcodes.overridden_opcodes\<close> (prefix \<open>g_\<close>), and the transaction objects that
  exist, each at its index.
\<close>

record pystate =
  g_transaction_fields :: "field list"
  g_block_header_fields :: "field list"
  g_block_fields :: "field list"
  g_overridden_opcodes :: "(nat \<times> string \<times> stack_op) list"
  objects :: "Transaction list"

definition getattr :: "Transaction \<Rightarrow> string \<Rightarrow> pyerror + pyval" where
  "getattr self nm = (case attrs self nm of None \<Rightarrow> Inl AttributeError | Some v \<Rightarrow> Inr v)"

definition setattr :: "Transaction \<Rightarrow> string \<Rightarrow> pyval \<Rightarrow> Transaction" where
  "setattr self nm v = self\<lparr>attrs := (attrs self)(nm \<mapsto> v)\<rparr>"

text \<open>
  The loop shared by \<open>set_serialization\<close> and \<open>from_tx\<close>:
  \<^verbatim>\<open>
  for name, _, _, default in fields:
      try: getattr(self, name)
      except AttributeError: setattr(self, name, default)
  \<close>
\<close>

fun fill_defaults :: "field list \<Rightarrow> Transaction \<Rightarrow> Transaction" where
  "fill_defaults [] self = self"
| "fill_defaults ((nm, fmt, num_bytes, dflt) # rest) self =
    fill_defaults rest
      (case getattr self nm of Inl e \<Rightarrow> setattr self nm dflt | Inr v \<Rightarrow> self)"

definition set_serialization :: "pystate \<Rightarrow> Transaction \<Rightarrow> field list option \<Rightarrow> Transaction" where
  "set_serialization s self fields_arg =
    (let fs = (case fields_arg of None \<Rightarrow> g_transaction_fields s | Some f \<Rightarrow> f)
     in fill_defaults fs (self\<lparr>self_fields := fs\<rparr>))"

text \<open>
  \<open>CMutableTransaction.__init__(vin, vout, nLockTime, nVersion)\<close> of the library checks
  the lock time and sets the four attributes.
\<close>

definition CMutableTransaction_init ::
    "CTxIn list option \<Rightarrow> CTxOut list option \<Rightarrow> int \<Rightarrow> int \<Rightarrow> pyerror + (string \<rightharpoonup> pyval)" where
  "CMutableTransaction_init vin vout locktime version =
    (if \<not> (0 \<le> locktime \<and> locktime \<le> 0xffffffff) then Inl ValueError
     else Inr [''nLockTime'' \<mapsto> PyInt locktime,
               ''vin'' \<mapsto> PyTxIns (case vin of None \<Rightarrow> [] | Some v \<Rightarrow> v),
               ''vout'' \<mapsto> PyTxOuts (case vout of None \<Rightarrow> [] | Some v \<Rightarrow> v),
               ''nVersion'' \<mapsto> PyInt version])"

definition Transaction_init ::
    "pystate \<Rightarrow> CTxIn list option \<Rightarrow> CTxOut list option \<Rightarrow> int \<Rightarrow> int \<Rightarrow> field list option
      \<Rightarrow> (string \<times> pyval) list \<Rightarrow> pyerror + Transaction" where
  "Transaction_init s vin vout locktime version fields_arg kwfields =
    (case CMutableTransaction_init vin vout locktime version of
       Inl e \<Rightarrow> Inl e
     | Inr a \<Rightarrow>
        Inr (set_serialization s
               (foldl (\<lambda>self (k, v). setattr self k v) \<lparr>self_fields = [], attrs = a\<rparr> kwfields)
               fields_arg))"

text \<open>
  \<open>stream_deserialize\<close>: \<open>self = cls()\<close> takes the schema that is active now, then one
  read per field of \<open>self.fields\<close>. The result is the object and the rest of the stream.
\<close>

fun deserialize_fields ::
    "field list \<Rightarrow> Transaction \<Rightarrow> byte list \<Rightarrow> pyerror + (Transaction \<times> byte list)" where
  "deserialize_fields [] self f = Inr (self, f)"
| "deserialize_fields ((attr, fmt, num_bytes, dflt) # rest) self f =
    (if fmt \<notin> set [''inputs'', ''outputs'', ''bytes''] then
       (case unpack_from fmt num_bytes f of
          Inl e \<Rightarrow> Inl e
        | Inr (v, f1) \<Rightarrow> deserialize_fields rest (setattr self attr (PyInt v)) f1)
     else if fmt = ''inputs'' then
       (case Vector_stream_deserialize CTxIn_stream_deserialize f of
          Inl e \<Rightarrow> Inl e
        | Inr (v, f1) \<Rightarrow> deserialize_fields rest (setattr self attr (PyTxIns v)) f1)
     else if fmt = ''outputs'' then
       (case Vector_stream_deserialize CTxOut_stream_deserialize f of
          Inl e \<Rightarrow> Inl e
        | Inr (v, f1) \<Rightarrow> deserialize_fields rest (setattr self attr (PyTxOuts v)) f1)
     else
       (case Bytes_stream_deserialize f of
          Inl e \<Rightarrow> Inl e
        | Inr (v, f1) \<Rightarrow> deserialize_fields rest (setattr self attr (PyBytes v)) f1))"

definition stream_deserialize :: "pystate \<Rightarrow> byte list \<Rightarrow> pyerror + (Transaction \<times> byte list)" where
  "stream_deserialize s f =
    (case Transaction_init s None None 0 1 None [] of
       Inl e \<Rightarrow> Inl e
     | Inr self \<Rightarrow> deserialize_fields (self_fields self) self f)"

text \<open>
  \<open>stream_serialize\<close>: one write per field of \<open>self.fields\<close>. An inputs field writes
  \<open>self.vin\<close> and an outputs field \<open>self.vout\<close>, whatever the field's name. The library
  iterates over what it is given: an empty sequence of another type still writes the
  count 0, anything else of another type is a TypeError.
\<close>

definition serialize_vin :: "pyval \<Rightarrow> pyerror + byte list" where
  "serialize_vin v =
    (case v of
       PyTxIns xs \<Rightarrow> Vector_stream_serialize CTxIn_stream_serialize xs
     | PyTxOuts xs \<Rightarrow> if xs = [] then VarInt_stream_serialize 0 else Inl TypeError
     | PyBytes b \<Rightarrow> if b = [] then VarInt_stream_serialize 0 else Inl TypeError
     | _ \<Rightarrow> Inl TypeError)"

definition serialize_vout :: "pyval \<Rightarrow> pyerror + byte list" where
  "serialize_vout v =
    (case v of
       PyTxOuts xs \<Rightarrow> Vector_stream_serialize CTxOut_stream_serialize xs
     | PyTxIns xs \<Rightarrow> if xs = [] then VarInt_stream_serialize 0 else Inl TypeError
     | PyBytes b \<Rightarrow> if b = [] then VarInt_stream_serialize 0 else Inl TypeError
     | _ \<Rightarrow> Inl TypeError)"

definition serialize_bytes :: "pyval \<Rightarrow> pyerror + byte list" where
  "serialize_bytes v = (case v of PyBytes b \<Rightarrow> Bytes_stream_serialize b | _ \<Rightarrow> Inl TypeError)"

definition serialize_field :: "Transaction \<Rightarrow> field \<Rightarrow> pyerror + byte list" where
  "serialize_field self fld =
    (case fld of (attr, fmt, num_bytes, dflt) \<Rightarrow>
      if fmt \<notin> set [''inputs'', ''outputs'', ''bytes''] then
        (case getattr self attr of Inl e \<Rightarrow> Inl e | Inr v \<Rightarrow> struct_pack fmt v)
      else if fmt = ''inputs'' then
        (case getattr self ''vin'' of Inl e \<Rightarrow> Inl e | Inr v \<Rightarrow> serialize_vin v)
      else if fmt = ''outputs'' then
        (case getattr self ''vout'' of Inl e \<Rightarrow> Inl e | Inr v \<Rightarrow> serialize_vout v)
      else
        (case getattr self attr of Inl e \<Rightarrow> Inl e | Inr v \<Rightarrow> serialize_bytes v))"

fun serialize_fields :: "field list \<Rightarrow> Transaction \<Rightarrow> pyerror + byte list" where
  "serialize_fields [] self = Inr []"
| "serialize_fields (fld # rest) self =
    (case serialize_field self fld of
       Inl e \<Rightarrow> Inl e
     | Inr a \<Rightarrow>
        (case serialize_fields rest self of Inl e \<Rightarrow> Inl e | Inr b \<Rightarrow> Inr (a @ b)))"

definition stream_serialize :: "Transaction \<Rightarrow> pyerror + byte list" where
  "stream_serialize self = serialize_fields (self_fields self) self"

text \<open>
  \<open>from_tx\<close>: an object of the library's own class is copied into a new Transaction;
  a Transaction is given the attributes of the active schema it lacks, and returned.
\<close>

datatype tx_arg = LibraryTx "CTxIn list" "CTxOut list" int int | HashmalTx Transaction

definition from_tx :: "pystate \<Rightarrow> tx_arg \<Rightarrow> pyerror + Transaction" where
  "from_tx s tx =
    (case tx of
       LibraryTx vin vout locktime version \<Rightarrow>
         Transaction_init s (Some vin) (Some vout) locktime version None []
     | HashmalTx t \<Rightarrow> Inr (fill_defaults (g_transaction_fields s) t))"

text \<open>
  Objects in the store: the constructor puts the new transaction at a fresh index, and
  an object is serialized through its index.
\<close>

definition new_Transaction ::
    "pystate \<Rightarrow> CTxIn list option \<Rightarrow> CTxOut list option \<Rightarrow> int \<Rightarrow> int \<Rightarrow> field list option
      \<Rightarrow> (string \<times> pyval) list \<Rightarrow> pyerror + (nat \<times> pystate)" where
  "new_Transaction s vin vout locktime version fields_arg kwfields =
    (case Transaction_init s vin vout locktime version fields_arg kwfields of
       Inl e \<Rightarrow> Inl e
     | Inr t \<Rightarrow> Inr (length (objects s), s\<lparr>objects := objects s @ [t]\<rparr>))"

definition object_at :: "pystate \<Rightarrow> nat \<Rightarrow> Transaction option" where
  "object_at s a = (if a < length (objects s) then Some (objects s ! a) else None)"

definition serialize_object :: "pystate \<Rightarrow> nat \<Rightarrow> (pyerror + byte list) option" where
  "serialize_object s a = map_option stream_serialize (object_at s a)"

section \<open>chainparams.py: presets and the setters of the active schemas\<close>

record ParamsPreset =
  preset_name :: string
  tx_fields :: "field list"
  block_header_fields :: "field list"
  block_fields :: "field list"
  opcode_overrides :: "(nat \<times> string \<times> stack_op) list"

definition bitcoin_header_fields :: "field list" where
  "bitcoin_header_fields =
    [(''nVersion'', ''<i'', Some 4, PyInt 1),
     (''hashPrevBlock'', ''bytes'', Some 32, PyBytes (replicate 32 0)),
     (''hashMerkleRoot'', ''bytes'', Some 32, PyBytes (replicate 32 0)),
     (''nTime'', ''<I'', Some 4, PyInt 0),
     (''nBits'', ''<I'', Some 4, PyInt 0),
     (''nNonce'', ''<I'', Some 4, PyInt 0)]"

definition bitcoin_block_fields :: "field list" where
  "bitcoin_block_fields = [(''vtx'', ''vectortx'', None, PyNone)]"

definition bitcoin_opcode_overrides :: "(nat \<times> string \<times> stack_op) list" where
  "bitcoin_opcode_overrides = []"

text \<open>\<open>ParamsPreset.__init__\<close> without keyword arguments: the defaults.\<close>

definition ParamsPreset_init :: ParamsPreset where
  "ParamsPreset_init =
    \<lparr>preset_name = [], tx_fields = [], block_header_fields = bitcoin_header_fields,
     block_fields = bitcoin_block_fields, opcode_overrides = bitcoin_opcode_overrides\<rparr>"

definition BitcoinPreset :: ParamsPreset where
  "BitcoinPreset = ParamsPreset_init
    \<lparr>preset_name := ''Bitcoin'',
     tx_fields := [(''nVersion'', ''<i'', Some 4, PyInt 1),
                   (''vin'', ''inputs'', None, PyNone),
                   (''vout'', ''outputs'', None, PyNone),
                   (''nLockTime'', ''<I'', Some 4, PyInt 0)]\<rparr>"

definition ClamsPreset :: ParamsPreset where
  "ClamsPreset = ParamsPreset_init
    \<lparr>preset_name := ''Clams'',
     tx_fields := [(''nVersion'', ''<i'', Some 4, PyInt 1),
                   (''Timestamp'', ''<i'', Some 4, PyInt 0),
                   (''vin'', ''inputs'', None, PyNone),
                   (''vout'', ''outputs'', None, PyNone),
                   (''nLockTime'', ''<I'', Some 4, PyInt 0),
                   (''ClamSpeech'', ''bytes'', None, PyBytes [])],
     block_fields := bitcoin_block_fields @ [(''blockSig'', ''bytes'', None, PyNone)],
     opcode_overrides := [(0xb0, ''OP_CHECKLOCKTIMEVERIFY'', clams_checklocktimeverify)]\<rparr>"

definition FreicoinPreset :: ParamsPreset where
  "FreicoinPreset = ParamsPreset_init
    \<lparr>preset_name := ''Freicoin'',
     tx_fields := [(''nVersion'', ''<i'', Some 4, PyInt 1),
                   (''vin'', ''inputs'', None, PyNone),
                   (''vout'', ''outputs'', None, PyNone),
                   (''nLockTime'', ''<I'', Some 4, PyInt 0),
                   (''RefHeight'', ''<i'', Some 4, PyInt 0)]\<rparr>"

definition PeercoinPreset :: ParamsPreset where
  "PeercoinPreset = ParamsPreset_init
    \<lparr>preset_name := ''Peercoin'',
     tx_fields := [(''nVersion'', ''<i'', Some 4, PyInt 1),
                   (''Timestamp'', ''<i'', Some 4, PyInt 0),
                   (''vin'', ''inputs'', None, PyNone),
                   (''vout'', ''outputs'', None, PyNone),
                   (''nLockTime'', ''<I'', Some 4, PyInt 0)]\<rparr>"

definition presets_list :: "ParamsPreset list" where
  "presets_list = [BitcoinPreset, ClamsPreset, FreicoinPreset, PeercoinPreset]"

text \<open>\<open>dict((i.name, i) for i in presets_list)\<close>: a later pair of the same name wins.\<close>

definition presets :: "string \<rightharpoonup> ParamsPreset" where
  "presets = map_of (rev (map (\<lambda>i. (preset_name i, i)) presets_list))"

definition get_tx_fields :: "pystate \<Rightarrow> field list" where
  "get_tx_fields s = g_transaction_fields s"

definition set_tx_fields :: "field list \<Rightarrow> pystate \<Rightarrow> pystate" where
  "set_tx_fields fs s = s\<lparr>g_transaction_fields := fs\<rparr>"

definition set_block_header_fields :: "field list \<Rightarrow> pystate \<Rightarrow> pystate" where
  "set_block_header_fields fs s = s\<lparr>g_block_header_fields := fs\<rparr>"

definition set_block_fields :: "field list \<Rightarrow> pystate \<Rightarrow> pystate" where
  "set_block_fields fs s = s\<lparr>g_block_fields := fs\<rparr>"

text \<open>
  Modelled from the spec: \<open>opcodes.set_overridden_opcodes\<close> and the dispatch of an
  opcode value to its handler are in the module \<open>opcodes\<close>, which is absent. By the
  specification the active opcode table is the base table with the entries of the
  override table replacing those of the same opcode value, setting the overrides
  replaces the override table, and dispatch fails with UnknownOpcodeError for a value in
  neither table. The base table is taken to hold every byte value.
\<close>

definition set_overridden_opcodes :: "(nat \<times> string \<times> stack_op) list \<Rightarrow> pystate \<Rightarrow> pystate" where
  "set_overridden_opcodes ops s = s\<lparr>g_overridden_opcodes := ops\<rparr>"

text \<open>
  Modelled from the spec: the dispatch of an opcode value, absent with the module
  \<open>opcodes\<close>: the override of that value if the override table has one, else the handler
  of the base table.
\<close>

definition opcode_handler :: "pystate \<Rightarrow> nat \<Rightarrow> pyerror + stack_op" where
  "opcode_handler s v =
    (case find (\<lambda>(value, nm, func). value = v) (g_overridden_opcodes s) of
       Some (value, nm, func) \<Rightarrow> Inr func
     | None \<Rightarrow> if v \<le> 0xff then Inr (base_op v) else Inl UnknownOpcodeError)"

definition get_opcode_overrides :: "pystate \<Rightarrow> (nat \<times> string \<times> stack_op) list" where
  "get_opcode_overrides s = g_overridden_opcodes s"

definition set_opcode_overrides :: "(nat \<times> string \<times> stack_op) list \<Rightarrow> pystate \<Rightarrow> pystate" where
  "set_opcode_overrides ops s = set_overridden_opcodes ops s"

text \<open>
  \<open>set_to_preset\<close>: the lookup \<open>presets[name]\<close> comes first and raises KeyError for an
  unknown name; the result is the outcome and the state after the call.
\<close>

definition set_to_preset :: "string \<Rightarrow> pystate \<Rightarrow> (pyerror + unit) \<times> pystate" where
  "set_to_preset nm s =
    (case presets nm of
       None \<Rightarrow> (Inl KeyError, s)
     | Some params \<Rightarrow>
        (Inr (),
         set_opcode_overrides (opcode_overrides params)
           (set_block_fields (block_fields params)
             (set_block_header_fields (block_header_fields params)
               (set_tx_fields (tx_fields params) s)))))"

section \<open>script_gen.py: script templates\<close>

text \<open>
  A template has a name, a text with variable names in angle brackets, and a dictionary
  from variable names to variable types (an association list, looked up with
  \<^const>\<open>map_of\<close>; its keys are the first components).
\<close>

record ScriptTemplate =
  tmpl_name :: string
  tmpl_text :: string
  tmpl_variables :: "(string \<times> string) list"

text \<open>Python's \<open>str.split()\<close>, \<open>startswith\<close>, \<open>endswith\<close> and the slice \<open>txt[1:-1]\<close>.\<close>

definition is_space :: "char \<Rightarrow> bool" where
  "is_space c = (c \<in> set [CHR '' '', CHR 0x09, CHR 0x0A, CHR 0x0B, CHR 0x0C, CHR 0x0D])"

fun split_from :: "string \<Rightarrow> string \<Rightarrow> string list" where
  "split_from [] cur = (if cur = [] then [] else [cur])"
| "split_from (c # cs) cur =
    (if is_space c then (if cur = [] then split_from cs [] else cur # split_from cs [])
     else split_from cs (cur @ [c]))"

definition split :: "string \<Rightarrow> string list" where
  "split txt = split_from txt []"

definition startswith :: "string \<Rightarrow> string \<Rightarrow> bool" where
  "startswith txt p = (take (length p) txt = p)"

definition endswith :: "string \<Rightarrow> string \<Rightarrow> bool" where
  "endswith txt p = (length p \<le> length txt \<and> drop (length txt - length p) txt = p)"

definition slice_1_m1 :: "string \<Rightarrow> string" where
  "slice_1_m1 txt = drop 1 (butlast txt)"

text \<open>
  Modelled from the spec: the class \<open>Script\<close> with \<open>human_iter\<close>
  (hashmal_lib.core.script) and \<open>format_hex_string\<close> (hashmal_lib.core.utils) are
  absent. By the specification the human-readable form of a script is a sequence of
  tokens, each an opcode mnemonic or a 0x-prefixed hex literal of the bytes pushed; a
  script is that sequence, and \<open>human_iter\<close> yields it in order.
  \<open>format_hex_string(x, with_prefix)\<close> answers None for what is not a hex literal (the
  prefix is optional), and otherwise the literal with an even number of digits, with or
  without the prefix.
\<close>

type_synonym Script = "string list"

definition human_iter :: "Script \<Rightarrow> string list" where
  "human_iter script = script"

text \<open>
  Modelled from the spec: \<open>is_hex\<close> and \<open>format_hex_string\<close> of the absent
  hashmal_lib.core.utils, for hex literals as the specification's token grammar has them
  (hex digits, with or without the prefix 0x).
\<close>

definition is_hex_digit :: "char \<Rightarrow> bool" where
  "is_hex_digit c = (c \<in> set ''0123456789abcdefABCDEF'')"

definition is_hex :: "string \<Rightarrow> bool" where
  "is_hex x =
    (let d = (if startswith x ''0x'' \<or> startswith x ''0X'' then drop 2 x else x)
     in d \<noteq> [] \<and> list_all is_hex_digit d)"

definition format_hex_string :: "string \<Rightarrow> bool \<Rightarrow> string option" where
  "format_hex_string x with_prefix =
    (if \<not> is_hex x then None
     else (let v1 = (if startswith x ''0x'' then x else ''0x'' @ x);
               v2 = (if length v1 mod 2 \<noteq> 0 then take 2 v1 @ ''0'' @ drop 2 v1 else v1)
           in Some (if with_prefix then v2 else drop 2 v2)))"

text \<open>
  \<open>is_valid_variable_value\<close>: only the type \<open>address\<close> can be valid. \<open>len(v)\<close> of the
  None that a value which is not hex gives raises TypeError.
\<close>

definition is_valid_variable_value :: "string \<Rightarrow> string \<Rightarrow> pyerror + bool" where
  "is_valid_variable_value v variable_type =
    (if variable_type = ''address'' then
       (case format_hex_string v False of
          None \<Rightarrow> Inl TypeError
        | Some w \<Rightarrow> if length w = 40 then Inr True else Inr False)
     else Inr False)"

text \<open>
  The loop of \<open>is_template_script\<close> over the tokens of the script: None is the
  \<open>return False\<close> inside the loop (a mismatch, an invalid value, or any exception other
  than StopIteration: the IndexError of \<open>text[index]\<close>, the KeyError of an undeclared
  variable, an error of the validity check); the end of the script leaves the loop with
  the variables used so far.
\<close>

fun template_loop ::
    "(string \<times> string) list \<Rightarrow> string list \<Rightarrow> string list \<Rightarrow> nat \<Rightarrow> string list
      \<Rightarrow> string list option" where
  "template_loop vars text [] index used_variables = Some used_variables"
| "template_loop vars text (s # iterator) index used_variables =
    (if index \<ge> length text then None
     else (let txt = text ! index
           in if startswith txt ''<'' \<and> endswith txt ''>'' then
                (case map_of vars (slice_1_m1 txt) of
                   None \<Rightarrow> None
                 | Some var_type \<Rightarrow>
                    (case is_valid_variable_value s var_type of
                       Inl e \<Rightarrow> None
                     | Inr ok \<Rightarrow>
                        if \<not> ok then None
                        else template_loop vars text iterator (index + 1)
                               (used_variables @ [slice_1_m1 txt])))
              else if s \<noteq> txt then None
              else template_loop vars text iterator (index + 1) used_variables))"

definition is_template_script :: "Script \<Rightarrow> ScriptTemplate \<Rightarrow> bool" where
  "is_template_script script template =
    (case template_loop (tmpl_variables template) (split (tmpl_text template))
            (human_iter script) 0 [] of
       None \<Rightarrow> False
     | Some used_variables \<Rightarrow>
        if \<not> list_all (\<lambda>i. i \<in> set used_variables) (map fst (tmpl_variables template))
        then False else True)"

text \<open>
  \<open>ScriptTemplateItem\<close>: the constructor fills the dictionary \<open>variables\<close> from the
  tokens at the template's variable positions; its loop ends at the first exception,
  the end of the script or of the template text.
\<close>

record ScriptTemplateItem =
  item_value :: Script
  item_template :: ScriptTemplate
  item_variables :: "string \<rightharpoonup> string"

fun populate_variables ::
    "string list \<Rightarrow> string list \<Rightarrow> nat \<Rightarrow> (string \<rightharpoonup> string) \<Rightarrow> (string \<rightharpoonup> string)" where
  "populate_variables text [] index variables = variables"
| "populate_variables text (s # iterator) index variables =
    (if index \<ge> length text then variables
     else (let txt = text ! index
           in populate_variables text iterator (index + 1)
                (if startswith txt ''<'' \<and> endswith txt ''>''
                 then variables(slice_1_m1 txt \<mapsto> s) else variables)))"

definition ScriptTemplateItem_init :: "Script \<Rightarrow> ScriptTemplate \<Rightarrow> ScriptTemplateItem" where
  "ScriptTemplateItem_init v template =
    \<lparr>item_value = v, item_template = template,
     item_variables = populate_variables (split (tmpl_text template)) (human_iter v) 0 Map.empty\<rparr>"

definition recipient :: "ScriptTemplateItem \<Rightarrow> string option" where
  "recipient self = item_variables self ''recipient''"

definition known_templates :: "ScriptTemplate list" where
  "known_templates =
    [\<lparr>tmpl_name = ''Pay-To-Public-Key-Hash Output'',
      tmpl_text = ''OP_DUP OP_HASH160 <recipient> OP_EQUALVERIFY OP_CHECKSIG'',
      tmpl_variables = [(''recipient'', ''address'')]\<rparr>,
     \<lparr>tmpl_name = ''Pay-To-Script-Hash Output'',
      tmpl_text = ''OP_HASH160 <recipient> OP_EQUAL'',
      tmpl_variables = [(''recipient'', ''address'')]\<rparr>,
     \<lparr>tmpl_name = ''Null Output'',
      tmpl_text = ''OP_RETURN <text>'',
      tmpl_variables = [(''text'', ''text'')]\<rparr>]"

text \<open>
  \<open>coerce_item\<close> on a script: the first known template the script complies with, or
  None.
\<close>

definition coerce_item :: "Script \<Rightarrow> ScriptTemplateItem option" where
  "coerce_item data =
    (case find (is_template_script data) known_templates of
       None \<Rightarrow> None
     | Some i \<Rightarrow> Some (ScriptTemplateItem_init data i))"

text \<open>The first of the known templates, Pay-To-Public-Key-Hash.\<close>

definition p2pkh_template :: ScriptTemplate where
  "p2pkh_template =
    \<lparr>tmpl_name = ''Pay-To-Public-Key-Hash Output'',
      tmpl_text = ''OP_DUP OP_HASH160 <recipient> OP_EQUALVERIFY OP_CHECKSIG'',
      tmpl_variables = [(''recipient'', ''address'')]\<rparr>"

section \<open>Valid entities\<close>

text \<open>
  The values the wire format can carry. An outpoint has a hash of 32 bytes and an
  unsigned 32-bit index; an input has a valid outpoint, a script of at most MAX_SIZE
  bytes and an unsigned 32-bit sequence number; an output has a signed 64-bit value and
  a script of at most MAX_SIZE bytes. An attribute fits its field when it holds a value
  of the field's kind that the field's encoding can carry: an integer in the range of
  the struct format, a list of valid inputs or outputs (fewer than 2^64 of them), a blob
  of at most MAX_SIZE bytes. An entity is valid when every field of its own schema is
  fitted by the attribute of the field's name.
\<close>

definition valid_outpoint :: "COutPoint \<Rightarrow> bool" where
  "valid_outpoint p = (length (op_hash p) = 32 \<and> int_fits False 4 (op_n p))"

definition valid_txin :: "CTxIn \<Rightarrow> bool" where
  "valid_txin x =
    (valid_outpoint (prevout x) \<and> length (scriptSig x) \<le> MAX_SIZE \<and> int_fits False 4 (nSequence x))"

definition valid_txout :: "CTxOut \<Rightarrow> bool" where
  "valid_txout x = (int_fits True 8 (nValue x) \<and> length (scriptPubKey x) \<le> MAX_SIZE)"

definition fits_field :: "Transaction \<Rightarrow> field \<Rightarrow> bool" where
  "fits_field e fld =
    (case fld of (attr, fmt, num_bytes, dflt) \<Rightarrow>
      if fmt \<notin> set [''inputs'', ''outputs'', ''bytes''] then
        (case map_of struct_formats fmt of
           None \<Rightarrow> False
         | Some (be, sg, w) \<Rightarrow>
            (case attrs e attr of Some (PyInt i) \<Rightarrow> int_fits sg w i | _ \<Rightarrow> False))
      else if fmt = ''inputs'' then
        (case attrs e attr of
           Some (PyTxIns xs) \<Rightarrow> length xs < 2 ^ 64 \<and> list_all valid_txin xs
         | _ \<Rightarrow> False)
      else if fmt = ''outputs'' then
        (case attrs e attr of
           Some (PyTxOuts xs) \<Rightarrow> length xs < 2 ^ 64 \<and> list_all valid_txout xs
         | _ \<Rightarrow> False)
      else
        (case attrs e attr of Some (PyBytes b) \<Rightarrow> length b \<le> MAX_SIZE | _ \<Rightarrow> False))"

definition valid_entity :: "Transaction \<Rightarrow> bool" where
  "valid_entity e = list_all (fits_field e) (self_fields e)"

text \<open>
  What the codec asks of a schema for writing and reading to agree: an integer field's
  num_bytes is the size of its struct format, an inputs field is named \<open>vin\<close> and an
  outputs field \<open>vout\<close> (the attributes \<open>stream_serialize\<close> writes for them). The schemas
  of the four presets are of this kind.
\<close>

definition codec_field :: "field \<Rightarrow> bool" where
  "codec_field fld =
    (case fld of (attr, fmt, num_bytes, dflt) \<Rightarrow>
      if fmt \<notin> set [''inputs'', ''outputs'', ''bytes''] then
        (case map_of struct_formats fmt of
           None \<Rightarrow> False
         | Some (be, sg, w) \<Rightarrow> num_bytes = Some w)
      else if fmt = ''inputs'' then attr = ''vin''
      else if fmt = ''outputs'' then attr = ''vout''
      else True)"

definition codec_schema :: "field list \<Rightarrow> bool" where
  "codec_schema fs = list_all codec_field fs"

section \<open>Short input\<close>












section \<open>A concrete state\<close>

text \<open>
  The list \<open>transaction_fields\<close> as transaction.py defines it, and a state for concrete
  instances: that list, the Bitcoin header and block fields, no override, no object.
\<close>

definition transaction_fields :: "field list" where
  "transaction_fields =
    [(''nVersion'', ''<i'', Some 4, PyInt 1),
     (''vin'', ''inputs'', None, PyNone),
     (''vout'', ''outputs'', None, PyNone),
     (''nLockTime'', ''<I'', Some 4, PyInt 0)]"

definition start_state :: pystate where
  "start_state =
    \<lparr>g_transaction_fields = transaction_fields, g_block_header_fields = bitcoin_header_fields,
     g_block_fields = bitcoin_block_fields, g_overridden_opcodes = [], objects = []\<rparr>"

text \<open>The transaction that the constructor builds with its default arguments under Bitcoin.\<close>

definition bitcoin_default_tx :: Transaction where
  "bitcoin_default_tx =
    \<lparr>self_fields = tx_fields BitcoinPreset,
     attrs = [''nLockTime'' \<mapsto> PyInt 0, ''vin'' \<mapsto> PyTxIns [], ''vout'' \<mapsto> PyTxOuts [],
              ''nVersion'' \<mapsto> PyInt 1]\<rparr>"

text \<open>
  A transaction of the Clams schema with one input, one output and a speech of two
  bytes.
\<close>

definition clams_example_tx :: Transaction where
  "clams_example_tx =
    \<lparr>self_fields = tx_fields ClamsPreset,
     attrs = [''nVersion'' \<mapsto> PyInt 1, ''Timestamp'' \<mapsto> PyInt 5,
              ''vin'' \<mapsto> PyTxIns [\<lparr>prevout = \<lparr>op_hash = replicate 32 0, op_n = 0\<rparr>,
                                    scriptSig = [], nSequence = 0xffffffff\<rparr>],
              ''vout'' \<mapsto> PyTxOuts [\<lparr>nValue = 5000, scriptPubKey = [0x51]\<rparr>],
              ''nLockTime'' \<mapsto> PyInt 0, ''ClamSpeech'' \<mapsto> PyBytes [0x68, 0x69]]\<rparr>"

text \<open>
  Two transactions outside what the wire format can carry: one of the Clams schema whose
  speech is one byte longer than MAX_SIZE, one of the Bitcoin schema whose version is
  2^31, one more than the format \<open><i\<close> holds.
\<close>

definition clams_long_speech_tx :: Transaction where
  "clams_long_speech_tx =
    \<lparr>self_fields = tx_fields ClamsPreset,
     attrs = [''nVersion'' \<mapsto> PyInt 1, ''Timestamp'' \<mapsto> PyInt 0, ''vin'' \<mapsto> PyTxIns [],
              ''vout'' \<mapsto> PyTxOuts [], ''nLockTime'' \<mapsto> PyInt 0,
              ''ClamSpeech'' \<mapsto> PyBytes (replicate (MAX_SIZE + 1) 0)]\<rparr>"

definition bitcoin_big_version_tx :: Transaction where
  "bitcoin_big_version_tx =
    \<lparr>self_fields = tx_fields BitcoinPreset,
     attrs = [''nVersion'' \<mapsto> PyInt 2147483648, ''vin'' \<mapsto> PyTxIns [],
              ''vout'' \<mapsto> PyTxOuts [], ''nLockTime'' \<mapsto> PyInt 0]\<rparr>"

section \<open>Presets and the setters\<close>

lemma byte_order_simps [simp]:
  "byte_order False bs = bs" "byte_order True bs = rev bs"
  "length (byte_order be bs) = length bs" "byte_order be (byte_order be bs) = bs"
  by (simp_all add: byte_order_def)

lemmas preset_defs = BitcoinPreset_def ClamsPreset_def FreicoinPreset_def PeercoinPreset_def
  ParamsPreset_init_def

lemmas setter_defs = set_opcode_overrides_def set_overridden_opcodes_def set_block_fields_def
  set_block_header_fields_def set_tx_fields_def

lemma presets_Bitcoin: "presets ''Bitcoin'' = Some BitcoinPreset"
  by (simp add: presets_def presets_list_def preset_defs)

lemma presets_Clams: "presets ''Clams'' = Some ClamsPreset"
  by (simp add: presets_def presets_list_def preset_defs)

lemma presets_Dogecoin: "presets ''Dogecoin'' = None"
  by (simp add: presets_def presets_list_def preset_defs)

lemma tx_fields_Bitcoin: "tx_fields BitcoinPreset =
    [(''nVersion'', ''<i'', Some 4, PyInt 1),
     (''vin'', ''inputs'', None, PyNone),
     (''vout'', ''outputs'', None, PyNone),
     (''nLockTime'', ''<I'', Some 4, PyInt 0)]"
  by (simp add: preset_defs)

text \<open>
  C4. For a name that is not a key of \<open>presets\<close>, \<open>set_to_preset\<close> raises KeyError (the
  unknown-preset error) and the state is the one before the call: none of the three
  schemas nor the override table is changed. For a registered name the call succeeds and
  the state after it holds the preset's transaction fields, block header fields, block
  fields and opcode overrides together, and nothing else is changed.
\<close>

theorem set_to_preset_all_or_nothing:
  "(presets nm = None \<longrightarrow> set_to_preset nm s = (Inl KeyError, s)) \<and>
   (\<forall>p. presets nm = Some p \<longrightarrow>
      set_to_preset nm s =
        (Inr (), s\<lparr>g_transaction_fields := tx_fields p,
                   g_block_header_fields := block_header_fields p,
                   g_block_fields := block_fields p,
                   g_overridden_opcodes := opcode_overrides p\<rparr>))"
  by (simp add: set_to_preset_def setter_defs)

theorem set_to_preset_all_or_nothing_witness:
  "presets ''Dogecoin'' = None \<and>
   set_to_preset ''Dogecoin'' start_state = (Inl KeyError, start_state) \<and>
   presets ''Clams'' = Some ClamsPreset \<and>
   set_to_preset ''Clams'' start_state =
     (Inr (), start_state\<lparr>g_transaction_fields := tx_fields ClamsPreset,
                   g_block_header_fields := block_header_fields ClamsPreset,
                   g_block_fields := block_fields ClamsPreset,
                   g_overridden_opcodes := opcode_overrides ClamsPreset\<rparr>)"
proof -
  note t1 = set_to_preset_all_or_nothing [of "''Dogecoin''" start_state]
  note t2 = set_to_preset_all_or_nothing [of "''Clams''" start_state]
  from t1 presets_Dogecoin
  have a: "set_to_preset ''Dogecoin'' start_state = (Inl KeyError, start_state)"
    by (simp only: simp_thms)
  from t2 presets_Clams
  have b: "set_to_preset ''Clams'' start_state =
     (Inr (), start_state\<lparr>g_transaction_fields := tx_fields ClamsPreset,
                   g_block_header_fields := block_header_fields ClamsPreset,
                   g_block_fields := block_fields ClamsPreset,
                   g_overridden_opcodes := opcode_overrides ClamsPreset\<rparr>)"
    by simp
  show ?thesis by (intro conjI presets_Dogecoin a presets_Clams b)
qed

text \<open>
  C7. After \<open>set_to_preset('Clams')\<close> the opcode value 0xb0 is dispatched to the Clams
  handler \<open>clams_checklocktimeverify\<close>; after a following \<open>set_to_preset('Bitcoin')\<close> the
  same value is dispatched to the handler of the base table again. (The handlers
  themselves, and the text they log, belong to the absent module \<open>opcodes\<close> and are
  labels here.)
\<close>

theorem opcode_override_scoping:
  "opcode_handler (snd (set_to_preset ''Clams'' s)) 0xb0 = Inr clams_checklocktimeverify \<and>
   opcode_handler (snd (set_to_preset ''Bitcoin'' (snd (set_to_preset ''Clams'' s)))) 0xb0
     = Inr (base_op 0xb0)"
  by (simp add: set_to_preset_def presets_Clams presets_Bitcoin setter_defs opcode_handler_def
      preset_defs bitcoin_opcode_overrides_def)

theorem opcode_override_scoping_witness:
  "opcode_handler (snd (set_to_preset ''Clams'' start_state)) 0xb0 = Inr clams_checklocktimeverify \<and>
   opcode_handler (snd (set_to_preset ''Bitcoin'' (snd (set_to_preset ''Clams'' start_state)))) 0xb0
     = Inr (base_op 0xb0)"
  by (rule opcode_override_scoping [of start_state])

section \<open>Evaluating the codec on concrete bytes\<close>

lemma map_of_fmt_i: "map_of struct_formats ''<i'' = Some (False, True, 4)"
  by (simp add: struct_formats_def)
lemma map_of_fmt_I: "map_of struct_formats ''<I'' = Some (False, False, 4)"
  by (simp add: struct_formats_def)

lemma ser_read_4: "ser_read (a # b # c # d # rest) (Some 4) = Inr ([a, b, c, d], rest)"
  by (simp add: ser_read_def MAX_SIZE_def)

lemma struct_unpack_i_1: "struct_unpack ''<i'' [1, 0, 0, 0] = Inr 1"
  by (simp add: struct_unpack_def map_of_fmt_i)

lemma struct_unpack_I_0: "struct_unpack ''<I'' [0, 0, 0, 0] = Inr 0"
  by (simp add: struct_unpack_def map_of_fmt_I)

lemma unpack_i_1: "unpack_from ''<i'' (Some 4) (1 # 0 # 0 # 0 # rest) = Inr (1, rest)"
  unfolding unpack_from_def ser_read_4 by (simp add: struct_unpack_i_1)

lemma unpack_I_0: "unpack_from ''<I'' (Some 4) (0 # 0 # 0 # 0 # rest) = Inr (0, rest)"
  unfolding unpack_from_def ser_read_4 by (simp add: struct_unpack_I_0)

lemma ser_read_1: "ser_read (a # rest) (Some 1) = Inr ([a], rest)"
  by (simp add: ser_read_def MAX_SIZE_def)

lemma varint_deser_0: "VarInt_stream_deserialize (0 # rest) = Inr (0, rest)"
  unfolding VarInt_stream_deserialize_def ser_read_1 by simp

lemma vector_deser_0: "Vector_stream_deserialize inner (0 # rest) = Inr ([], rest)"
  by (simp add: Vector_stream_deserialize_def varint_deser_0)

lemma le_encode_numeral:
  "le_encode (numeral k) v = word_of_nat (v mod 256) # le_encode (pred_numeral k) (v div 256)"
proof -
  have "numeral k = Suc (pred_numeral k)" by (rule numeral_eq_Suc)
  then show ?thesis by (simp only: le_encode.simps)
qed

lemma pack_i_1: "struct_pack ''<i'' (PyInt 1) = Inr [1, 0, 0, 0]"
  by (simp add: struct_pack_def map_of_fmt_i int_fits_def le_encode_numeral)

lemma pack_I_0: "struct_pack ''<I'' (PyInt 0) = Inr [0, 0, 0, 0]"
  by (simp add: struct_pack_def map_of_fmt_I int_fits_def le_encode_numeral)

lemma varint_ser_0: "VarInt_stream_serialize 0 = Inr [0]"
  by (simp add: VarInt_stream_serialize_def)

lemma vector_ser_Nil: "Vector_stream_serialize inner [] = Inr [0]"
  by (simp add: Vector_stream_serialize_def varint_ser_0)

text \<open>The object that cls() builds under the Bitcoin schema.\<close>

lemma cls_Bitcoin:
  assumes "g_transaction_fields s = tx_fields BitcoinPreset"
  shows "Transaction_init s None None 0 1 None [] =
    Inr \<lparr>self_fields = tx_fields BitcoinPreset,
         attrs = [''nLockTime'' \<mapsto> PyInt 0, ''vin'' \<mapsto> PyTxIns [], ''vout'' \<mapsto> PyTxOuts [],
                  ''nVersion'' \<mapsto> PyInt 1]\<rparr>"
  using assms
  by (simp add: Transaction_init_def CMutableTransaction_init_def set_serialization_def
      tx_fields_Bitcoin getattr_def)

lemma deser_fields_Bitcoin_example:
  "deserialize_fields (tx_fields BitcoinPreset) t [1,0,0,0,0,0,0,0,0,0] =
     Inr (setattr (setattr (setattr (setattr t ''nVersion'' (PyInt 1)) ''vin'' (PyTxIns []))
            ''vout'' (PyTxOuts [])) ''nLockTime'' (PyInt 0), [])"
  by (simp add: tx_fields_Bitcoin unpack_i_1 unpack_I_0 vector_deser_0)

lemma ser_fields_Bitcoin_example:
  assumes "attrs t ''nVersion'' = Some (PyInt 1)" "attrs t ''vin'' = Some (PyTxIns [])"
    "attrs t ''vout'' = Some (PyTxOuts [])" "attrs t ''nLockTime'' = Some (PyInt 0)"
  shows "serialize_fields (tx_fields BitcoinPreset) t = Inr [1,0,0,0,0,0,0,0,0,0]"
  using assms
  by (simp add: tx_fields_Bitcoin serialize_field_def getattr_def pack_i_1 pack_I_0
      serialize_vin_def serialize_vout_def vector_ser_Nil)

text \<open>
  C3. With the Bitcoin preset active, the ten bytes 01000000 00 00 00000000 deserialize
  to a transaction with nVersion = 1, vin = [], vout = [], nLockTime = 0 (and no other
  attribute), the whole input being consumed, and that transaction serializes to the
  same ten bytes.
\<close>

theorem bitcoin_empty_tx_scenario:
  "\<exists>t. stream_deserialize (snd (set_to_preset ''Bitcoin'' s)) [1,0,0,0,0,0,0,0,0,0] = Inr (t, []) \<and>
     self_fields t = tx_fields BitcoinPreset \<and>
     attrs t ''nVersion'' = Some (PyInt 1) \<and> attrs t ''vin'' = Some (PyTxIns []) \<and>
     attrs t ''vout'' = Some (PyTxOuts []) \<and> attrs t ''nLockTime'' = Some (PyInt 0) \<and>
     dom (attrs t) = {''nVersion'', ''vin'', ''vout'', ''nLockTime''} \<and>
     stream_serialize t = Inr [1,0,0,0,0,0,0,0,0,0]"
proof -
  let ?s = "snd (set_to_preset ''Bitcoin'' s)"
  have g: "g_transaction_fields ?s = tx_fields BitcoinPreset"
    by (simp add: set_to_preset_def presets_Bitcoin set_opcode_overrides_def
        set_overridden_opcodes_def set_block_fields_def set_block_header_fields_def
        set_tx_fields_def)
  let ?t0 = "\<lparr>self_fields = tx_fields BitcoinPreset,
         attrs = [''nLockTime'' \<mapsto> PyInt 0, ''vin'' \<mapsto> PyTxIns [], ''vout'' \<mapsto> PyTxOuts [],
                  ''nVersion'' \<mapsto> PyInt 1]\<rparr>"
  let ?t = "setattr (setattr (setattr (setattr ?t0 ''nVersion'' (PyInt 1)) ''vin'' (PyTxIns []))
            ''vout'' (PyTxOuts [])) ''nLockTime'' (PyInt 0)"
  have d: "stream_deserialize ?s [1,0,0,0,0,0,0,0,0,0] = Inr (?t, [])"
    unfolding stream_deserialize_def cls_Bitcoin [OF g]
    by (simp add: deser_fields_Bitcoin_example)
  have f: "self_fields ?t = tx_fields BitcoinPreset" by (simp add: setattr_def)
  have a1: "attrs ?t ''nVersion'' = Some (PyInt 1)" by (simp add: setattr_def)
  have a2: "attrs ?t ''vin'' = Some (PyTxIns [])" by (simp add: setattr_def)
  have a3: "attrs ?t ''vout'' = Some (PyTxOuts [])" by (simp add: setattr_def)
  have a4: "attrs ?t ''nLockTime'' = Some (PyInt 0)" by (simp add: setattr_def)
  have dm: "dom (attrs ?t) = {''nVersion'', ''vin'', ''vout'', ''nLockTime''}"
    by (simp add: setattr_def insert_commute)
  have ser: "stream_serialize ?t = Inr [1,0,0,0,0,0,0,0,0,0]"
    unfolding stream_serialize_def f by (rule ser_fields_Bitcoin_example [OF a1 a2 a3 a4])
  show ?thesis
    by (rule exI [of _ ?t]) (intro conjI d f a1 a2 a3 a4 dm ser)
qed

theorem bitcoin_empty_tx_scenario_witness:
  "\<exists>t. stream_deserialize (snd (set_to_preset ''Bitcoin'' start_state)) [1,0,0,0,0,0,0,0,0,0]
        = Inr (t, []) \<and>
     self_fields t = tx_fields BitcoinPreset \<and>
     attrs t ''nVersion'' = Some (PyInt 1) \<and> attrs t ''vin'' = Some (PyTxIns []) \<and>
     attrs t ''vout'' = Some (PyTxOuts []) \<and> attrs t ''nLockTime'' = Some (PyInt 0) \<and>
     dom (attrs t) = {''nVersion'', ''vin'', ''vout'', ''nLockTime''} \<and>
     stream_serialize t = Inr [1,0,0,0,0,0,0,0,0,0]"
  by (rule bitcoin_empty_tx_scenario [of start_state])

section \<open>Script templates\<close>

lemma split_p2pkh:
  "split ''OP_DUP OP_HASH160 <recipient> OP_EQUALVERIFY OP_CHECKSIG'' =
     [''OP_DUP'', ''OP_HASH160'', ''<recipient>'', ''OP_EQUALVERIFY'', ''OP_CHECKSIG'']"
  by (simp add: split_def is_space_def)

lemma split_p2sh:
  "split ''OP_HASH160 <recipient> OP_EQUAL'' = [''OP_HASH160'', ''<recipient>'', ''OP_EQUAL'']"
  by (simp add: split_def is_space_def)

lemma split_null: "split ''OP_RETURN <text>'' = [''OP_RETURN'', ''<text>'']"
  by (simp add: split_def is_space_def)

lemma is_var_recipient:
  "startswith ''<recipient>'' ''<''" "endswith ''<recipient>'' ''>''"
  "slice_1_m1 ''<recipient>'' = ''recipient''"
  by (simp_all add: startswith_def endswith_def slice_1_m1_def)

lemma not_var_ops:
  "\<not> startswith ''OP_DUP'' ''<''" "\<not> startswith ''OP_HASH160'' ''<''"
  "\<not> startswith ''OP_EQUALVERIFY'' ''<''" "\<not> startswith ''OP_CHECKSIG'' ''<''"
  by (simp_all add: startswith_def)

lemma format_hex_string_push:
  assumes "length ds = 40" "list_all is_hex_digit ds"
  shows "format_hex_string (''0x'' @ ds) False = Some ds"
proof -
  have ne: "ds \<noteq> []" using assms(1) by auto
  have sw: "startswith (''0x'' @ ds) ''0x''" by (simp add: startswith_def)
  have hx: "is_hex (''0x'' @ ds)" using ne assms(2) sw by (simp add: is_hex_def)
  have ev: "length (''0x'' @ ds) mod 2 = 0" using assms(1) by simp
  show ?thesis using hx sw ev by (simp add: format_hex_string_def)
qed

lemma valid_address_push:
  assumes "length ds = 40" "list_all is_hex_digit ds"
  shows "is_valid_variable_value (''0x'' @ ds) ''address'' = Inr True"
  using assms format_hex_string_push [OF assms] by (simp add: is_valid_variable_value_def)

lemma template_loop_p2pkh:
  assumes "length ds = 40" "list_all is_hex_digit ds"
  shows "template_loop [(''recipient'', ''address'')]
           [''OP_DUP'', ''OP_HASH160'', ''<recipient>'', ''OP_EQUALVERIFY'', ''OP_CHECKSIG'']
           [''OP_DUP'', ''OP_HASH160'', ''0x'' @ ds, ''OP_EQUALVERIFY'', ''OP_CHECKSIG''] 0 []
         = Some [''recipient'']"
  using valid_address_push [OF assms]
  by (simp add: is_var_recipient not_var_ops)

lemma populate_p2pkh:
  "populate_variables
           [''OP_DUP'', ''OP_HASH160'', ''<recipient>'', ''OP_EQUALVERIFY'', ''OP_CHECKSIG'']
           [''OP_DUP'', ''OP_HASH160'', h, ''OP_EQUALVERIFY'', ''OP_CHECKSIG''] 0 Map.empty
         = [''recipient'' \<mapsto> h]"
  by (simp add: is_var_recipient not_var_ops)

lemma hd_known_templates: "known_templates ! 0 = p2pkh_template"
  by (simp add: known_templates_def p2pkh_template_def)

lemma find_known_templates:
  "is_template_script d p2pkh_template \<Longrightarrow> find (is_template_script d) known_templates = Some p2pkh_template"
  by (simp add: known_templates_def p2pkh_template_def)

text \<open>
  C8. A script with the tokens OP_DUP OP_HASH160, a 0x-prefixed push of 20 bytes (40 hex
  digits), OP_EQUALVERIFY OP_CHECKSIG complies with the Pay-To-Public-Key-Hash template:
  \<open>is_template_script\<close> is True for it, \<open>coerce_item\<close> returns an item of that template,
  and the item's variable \<open>recipient\<close> is the push token.
\<close>

theorem p2pkh_recognized:
  assumes "length ds = 40" "list_all is_hex_digit ds"
  shows "is_template_script
           [''OP_DUP'', ''OP_HASH160'', ''0x'' @ ds, ''OP_EQUALVERIFY'', ''OP_CHECKSIG''] (known_templates ! 0) \<and>
         tmpl_name (known_templates ! 0) = ''Pay-To-Public-Key-Hash Output'' \<and>
         (\<exists>item. coerce_item [''OP_DUP'', ''OP_HASH160'', ''0x'' @ ds, ''OP_EQUALVERIFY'', ''OP_CHECKSIG'']
                   = Some item \<and>
            item_template item = known_templates ! 0 \<and>
            item_variables item = [''recipient'' \<mapsto> ''0x'' @ ds] \<and>
            recipient item = Some (''0x'' @ ds))"
proof -
  let ?script = "[''OP_DUP'', ''OP_HASH160'', ''0x'' @ ds, ''OP_EQUALVERIFY'', ''OP_CHECKSIG'']"
  have m: "is_template_script ?script p2pkh_template"
    unfolding is_template_script_def human_iter_def
    using template_loop_p2pkh [OF assms]
    by (simp add: p2pkh_template_def split_p2pkh)
  have n: "tmpl_name p2pkh_template = ''Pay-To-Public-Key-Hash Output''"
    by (simp add: p2pkh_template_def)
  have c: "coerce_item ?script = Some (ScriptTemplateItem_init ?script p2pkh_template)"
    unfolding coerce_item_def find_known_templates [OF m] by simp
  have v: "item_variables (ScriptTemplateItem_init ?script p2pkh_template) = [''recipient'' \<mapsto> ''0x'' @ ds]"
    unfolding ScriptTemplateItem_init_def human_iter_def
    using populate_p2pkh [of "''0x'' @ ds"]
    by (simp add: p2pkh_template_def split_p2pkh)
  have t: "item_template (ScriptTemplateItem_init ?script p2pkh_template) = p2pkh_template"
    by (simp add: ScriptTemplateItem_init_def)
  have r: "recipient (ScriptTemplateItem_init ?script p2pkh_template) = Some (''0x'' @ ds)"
    unfolding recipient_def v by simp
  show ?thesis
    unfolding hd_known_templates
    by (intro conjI m n exI [of _ "ScriptTemplateItem_init ?script p2pkh_template"] c v t r)
qed

theorem p2pkh_recognized_witness:
  "is_template_script
     [''OP_DUP'', ''OP_HASH160'', ''0x'' @ ''aabbccddeeff00112233445566778899aabbccdd'',
      ''OP_EQUALVERIFY'', ''OP_CHECKSIG''] (known_templates ! 0) \<and>
   tmpl_name (known_templates ! 0) = ''Pay-To-Public-Key-Hash Output'' \<and>
   (\<exists>item. coerce_item
              [''OP_DUP'', ''OP_HASH160'', ''0x'' @ ''aabbccddeeff00112233445566778899aabbccdd'',
               ''OP_EQUALVERIFY'', ''OP_CHECKSIG''] = Some item \<and>
      item_template item = known_templates ! 0 \<and>
      item_variables item = [''recipient'' \<mapsto> ''0x'' @ ''aabbccddeeff00112233445566778899aabbccdd''] \<and>
      recipient item = Some (''0x'' @ ''aabbccddeeff00112233445566778899aabbccdd''))"
proof -
  have l: "length ''aabbccddeeff00112233445566778899aabbccdd'' = 40" by simp
  have h: "list_all is_hex_digit ''aabbccddeeff00112233445566778899aabbccdd''"
    by (simp add: is_hex_digit_def)
  show ?thesis by (rule p2pkh_recognized [OF l h])
qed

lemma valid_value_address:
  "is_valid_variable_value v ty = Inr True \<Longrightarrow> ty = ''address''"
  by (simp add: is_valid_variable_value_def split: if_splits)

lemma template_loop_used:
  "template_loop vars text script idx used = Some used' \<Longrightarrow> x \<in> set used' \<Longrightarrow>
     x \<in> set used \<or> map_of vars x = Some ''address''"
proof (induction script arbitrary: idx used)
  case Nil
  then show ?case by simp
next
  case (Cons s script)
  show ?case
  proof (cases "startswith (text ! idx) ''<'' \<and> endswith (text ! idx) ''>''")
    case True
    with Cons.prems(1) obtain ty where
      ty: "map_of vars (slice_1_m1 (text ! idx)) = Some ty" and
      ok: "is_valid_variable_value s ty = Inr True" and
      rec: "template_loop vars text script (idx + 1) (used @ [slice_1_m1 (text ! idx)]) = Some used'"
      by (auto simp: Let_def split: if_splits option.splits sum.splits)
    from Cons.IH [OF rec Cons.prems(2)] valid_value_address [OF ok] ty
    show ?thesis by auto
  next
    case False
    with Cons.prems(1) have
      rec: "template_loop vars text script (idx + 1) used = Some used'"
      by (auto simp: Let_def split: if_splits)
    from Cons.IH [OF rec Cons.prems(2)] show ?thesis .
  qed
qed

lemma text_variable_blocks:
  assumes "map_of (tmpl_variables t) x = Some ''text''"
  shows "\<not> is_template_script script t"
proof
  assume m: "is_template_script script t"
  then obtain used where
    l: "template_loop (tmpl_variables t) (split (tmpl_text t)) (human_iter script) 0 [] = Some used"
    and a: "list_all (\<lambda>i. i \<in> set used) (map fst (tmpl_variables t))"
    by (auto simp: is_template_script_def split: option.splits if_splits)
  from assms have "(x, ''text'') \<in> set (tmpl_variables t)" by (rule map_of_SomeD)
  then have "x \<in> set (map fst (tmpl_variables t))" by force
  with a have "x \<in> set used" by (auto simp: list_all_iff)
  from template_loop_used [OF l this] assms show False by simp
qed

text \<open>
  C10. \<open>is_valid_variable_value(value, 'text')\<close> is False for every value; so a script
  never complies with a template that declares a variable of type \<open>text\<close>, in particular
  not with the Null Output template, and \<open>coerce_item\<close> never returns an item of such a
  template.
\<close>

theorem text_variables_never_match:
  "is_valid_variable_value v ''text'' = Inr False \<and>
   (map_of (tmpl_variables t) x = Some ''text'' \<longrightarrow> \<not> is_template_script script t) \<and>
   \<not> is_template_script script (known_templates ! 2) \<and>
   (\<forall>item. coerce_item script = Some item \<longrightarrow>
      tmpl_name (item_template item) \<noteq> ''Null Output'' \<and>
      map_of (tmpl_variables (item_template item)) x \<noteq> Some ''text'')"
proof -
  have a: "is_valid_variable_value v ''text'' = Inr False"
    by (simp add: is_valid_variable_value_def)
  have b: "map_of (tmpl_variables t) x = Some ''text'' \<longrightarrow> \<not> is_template_script script t"
    using text_variable_blocks by blast
  have n: "map_of (tmpl_variables (known_templates ! 2)) ''text'' = Some ''text''"
    by (simp add: known_templates_def)
  have c: "\<not> is_template_script script (known_templates ! 2)"
    by (rule text_variable_blocks [OF n])
  have d: "tmpl_name (item_template item) \<noteq> ''Null Output'' \<and>
      map_of (tmpl_variables (item_template item)) x \<noteq> Some ''text''"
    if h: "coerce_item script = Some item" for item
  proof -
    from h obtain i where f: "find (is_template_script script) known_templates = Some i"
      and it: "item = ScriptTemplateItem_init script i"
      by (auto simp: coerce_item_def split: option.splits)
    from f have m: "is_template_script script i" and mem: "i \<in> set known_templates"
      by (auto simp: find_Some_iff)
    have t: "item_template item = i" by (simp add: it ScriptTemplateItem_init_def)
    from m text_variable_blocks have nt: "map_of (tmpl_variables i) x \<noteq> Some ''text''"
      by blast
    from mem c m have "tmpl_name i \<noteq> ''Null Output''"
      by (auto simp: known_templates_def)
    with nt t show ?thesis by simp
  qed
  from a b c d show ?thesis by blast
qed

theorem text_variables_never_match_witness:
  "is_valid_variable_value ''hello'' ''text'' = Inr False \<and>
   map_of (tmpl_variables (known_templates ! 2)) ''text'' = Some ''text'' \<and>
   \<not> is_template_script [''OP_RETURN'', ''0x68656c6c6f''] (known_templates ! 2) \<and>
   \<not> (\<exists>item. coerce_item [''OP_RETURN'', ''0x68656c6c6f''] = Some item \<and>
          tmpl_name (item_template item) = ''Null Output'')"
proof -
  note t = text_variables_never_match [of "''hello''" "known_templates ! 2" "''text''"
      "[''OP_RETURN'', ''0x68656c6c6f'']"]
  have n: "map_of (tmpl_variables (known_templates ! 2)) ''text'' = Some ''text''"
    by (simp add: known_templates_def)
  from t n show ?thesis by blast
qed

lemma template_loop_prefix:
  assumes "idx + length ss \<le> length text"
    and "\<forall>j < length ss.
          (if startswith (text ! (idx + j)) ''<'' \<and> endswith (text ! (idx + j)) ''>''
           then \<exists>ty. map_of vars (slice_1_m1 (text ! (idx + j))) = Some ty \<and>
                  is_valid_variable_value (ss ! j) ty = Inr True
           else ss ! j = text ! (idx + j))"
  shows "template_loop vars text ss idx used =
     Some (used @ map slice_1_m1
        (filter (\<lambda>txt. startswith txt ''<'' \<and> endswith txt ''>'') (take (length ss) (drop idx text))))"
  using assms
proof (induction ss arbitrary: idx used)
  case Nil
  then show ?case by simp
next
  case (Cons s ss)
  from Cons.prems(1) have lt: "idx < length text" and le: "(idx + 1) + length ss \<le> length text"
    by simp_all
  have step: "\<forall>j < length ss.
          (if startswith (text ! ((idx + 1) + j)) ''<'' \<and> endswith (text ! ((idx + 1) + j)) ''>''
           then \<exists>ty. map_of vars (slice_1_m1 (text ! ((idx + 1) + j))) = Some ty \<and>
                  is_valid_variable_value (ss ! j) ty = Inr True
           else ss ! j = text ! ((idx + 1) + j))"
  proof (intro allI impI)
    fix j assume "j < length ss"
    then have "Suc j < length (s # ss)" by simp
    from Cons.prems(2) [rule_format, OF this] show
      "(if startswith (text ! ((idx + 1) + j)) ''<'' \<and> endswith (text ! ((idx + 1) + j)) ''>''
           then \<exists>ty. map_of vars (slice_1_m1 (text ! ((idx + 1) + j))) = Some ty \<and>
                  is_valid_variable_value (ss ! j) ty = Inr True
           else ss ! j = text ! ((idx + 1) + j))"
      by (simp only: nth_Cons_Suc add_Suc_right add_Suc add_0_right One_nat_def)
  qed
  have hd0: "(if startswith (text ! idx) ''<'' \<and> endswith (text ! idx) ''>''
           then \<exists>ty. map_of vars (slice_1_m1 (text ! idx)) = Some ty \<and>
                  is_valid_variable_value s ty = Inr True
           else s = text ! idx)"
    using Cons.prems(2) [rule_format, of 0] by (simp cong: if_cong)
  have tk: "take (length (s # ss)) (drop idx text) = text ! idx # take (length ss) (drop (idx + 1) text)"
    using lt by (simp add: Cons_nth_drop_Suc [symmetric])
  note IH = Cons.IH [OF le step]
  show ?case
  proof (cases "startswith (text ! idx) ''<'' \<and> endswith (text ! idx) ''>''")
    case True
    with hd0 obtain ty where ty: "map_of vars (slice_1_m1 (text ! idx)) = Some ty"
      and ok: "is_valid_variable_value s ty = Inr True" by auto
    show ?thesis
      unfolding tk using True lt ty ok IH [of "used @ [slice_1_m1 (text ! idx)]"]
      by (simp add: Let_def)
  next
    case False
    with hd0 have eq: "s = text ! idx" by auto
    show ?thesis
      unfolding tk using False lt eq IH [of used]
      by (auto simp add: Let_def)
  qed
qed

text \<open>
  C9. Let the script have fewer tokens than the template text. If every token of the
  script fits the template token at its position (equal to it, or, at a variable
  position, a valid value for the declared type of that variable), and every declared
  variable has its position among those the script reaches, then \<open>is_template_script\<close>
  is True: the tokens of the template beyond the end of the script are not required.
\<close>

theorem strict_prefix_matches:
  assumes "length script < length (split (tmpl_text t))"
    and "\<forall>j < length script.
          (if startswith (split (tmpl_text t) ! j) ''<'' \<and> endswith (split (tmpl_text t) ! j) ''>''
           then \<exists>ty. map_of (tmpl_variables t) (slice_1_m1 (split (tmpl_text t) ! j)) = Some ty \<and>
                  is_valid_variable_value (script ! j) ty = Inr True
           else script ! j = split (tmpl_text t) ! j)"
    and "\<forall>k \<in> set (map fst (tmpl_variables t)). \<exists>j < length script.
           startswith (split (tmpl_text t) ! j) ''<'' \<and> endswith (split (tmpl_text t) ! j) ''>'' \<and>
           slice_1_m1 (split (tmpl_text t) ! j) = k"
  shows "is_template_script script t"
proof -
  let ?text = "split (tmpl_text t)"
  let ?P = "\<lambda>txt. startswith txt ''<'' \<and> endswith txt ''>''"
  let ?used = "map slice_1_m1 (filter ?P (take (length script) ?text))"
  have l: "template_loop (tmpl_variables t) ?text script 0 [] = Some ?used"
    using template_loop_prefix [of 0 script ?text "tmpl_variables t" "[]"] assms(1,2)
    by simp
  have "k \<in> set ?used" if k: "k \<in> set (map fst (tmpl_variables t))" for k
  proof -
    from assms(3) k obtain j where j: "j < length script" and p: "?P (?text ! j)"
      and sl: "slice_1_m1 (?text ! j) = k" by blast
    from j assms(1) have "?text ! j \<in> set (take (length script) ?text)"
      by (metis length_take min.absorb4 nth_mem nth_take)
    with p have "?text ! j \<in> set (filter ?P (take (length script) ?text))" by simp
    then have "slice_1_m1 (?text ! j) \<in> slice_1_m1 ` set (filter ?P (take (length script) ?text))"
      by (rule imageI)
    then have "slice_1_m1 (?text ! j) \<in> set ?used" by (simp only: set_map)
    then show ?thesis by (simp only: sl)
  qed
  then have a: "list_all (\<lambda>i. i \<in> set ?used) (map fst (tmpl_variables t))"
    unfolding list_all_iff by (rule ballI)
  show ?thesis
    unfolding is_template_script_def human_iter_def l option.case using a by (simp only: not_True_eq_False if_False)
qed

theorem strict_prefix_matches_witness:
  "length [''OP_DUP'', ''OP_HASH160'', ''0x'' @ ''aabbccddeeff00112233445566778899aabbccdd'']
     < length (split (tmpl_text (known_templates ! 0))) \<and>
   is_template_script
     [''OP_DUP'', ''OP_HASH160'', ''0x'' @ ''aabbccddeeff00112233445566778899aabbccdd'']
     (known_templates ! 0)"
proof -
  let ?h = "''0x'' @ ''aabbccddeeff00112233445566778899aabbccdd''"
  let ?script = "[''OP_DUP'', ''OP_HASH160'', ?h]"
  have tx: "split (tmpl_text p2pkh_template) =
     [''OP_DUP'', ''OP_HASH160'', ''<recipient>'', ''OP_EQUALVERIFY'', ''OP_CHECKSIG'']"
    by (simp add: p2pkh_template_def split_p2pkh)
  have vs: "tmpl_variables p2pkh_template = [(''recipient'', ''address'')]"
    by (simp add: p2pkh_template_def)
  have l: "length ''aabbccddeeff00112233445566778899aabbccdd'' = 40" by simp
  have h: "list_all is_hex_digit ''aabbccddeeff00112233445566778899aabbccdd''"
    by (simp add: is_hex_digit_def)
  note ok = valid_address_push [OF l h]
  have a1: "length ?script < length (split (tmpl_text p2pkh_template))"
    unfolding tx by simp
  have a2: "\<forall>j < length ?script.
          (if startswith (split (tmpl_text p2pkh_template) ! j) ''<'' \<and>
              endswith (split (tmpl_text p2pkh_template) ! j) ''>''
           then \<exists>ty. map_of (tmpl_variables p2pkh_template)
                    (slice_1_m1 (split (tmpl_text p2pkh_template) ! j)) = Some ty \<and>
                  is_valid_variable_value (?script ! j) ty = Inr True
           else ?script ! j = split (tmpl_text p2pkh_template) ! j)"
    unfolding tx vs using ok by (simp add: All_less_Suc is_var_recipient not_var_ops cong: if_cong)
  have a3: "\<forall>k \<in> set (map fst (tmpl_variables p2pkh_template)). \<exists>j < length ?script.
           startswith (split (tmpl_text p2pkh_template) ! j) ''<'' \<and>
           endswith (split (tmpl_text p2pkh_template) ! j) ''>'' \<and>
           slice_1_m1 (split (tmpl_text p2pkh_template) ! j) = k"
    unfolding tx vs by (simp add: Ex_less_Suc is_var_recipient not_var_ops)
  from strict_prefix_matches [OF a1 a2 a3] a1 show ?thesis
    unfolding hd_known_templates by (intro conjI)
qed

section \<open>Schemas of existing transactions\<close>

lemma self_fields_fill_defaults: "self_fields (fill_defaults fs t) = self_fields t"
  by (induction fs arbitrary: t) (auto simp: getattr_def setattr_def split: option.splits)

lemma attrs_fill_defaults:
  "attrs (fill_defaults fs t) nm =
     (case attrs t nm of
        Some v \<Rightarrow> Some v
      | None \<Rightarrow> map_of (map (\<lambda>(a, f, k, d). (a, d)) fs) nm)"
proof (induction fs arbitrary: t)
  case Nil
  then show ?case by (simp split: option.splits)
next
  case (Cons fld fs)
  obtain a f k d where fld: "fld = (a, f, k, d)" by (cases fld) auto
  show ?case
    unfolding fld
    by (simp add: Cons.IH getattr_def setattr_def split: option.splits)
qed

lemma objects_set_to_preset: "objects (snd (set_to_preset nm s)) = objects s"
  by (simp add: set_to_preset_def setter_defs split: option.splits)

lemma self_fields_Transaction_init:
  "Transaction_init s vin vout locktime version None kwfields = Inr t \<Longrightarrow>
     self_fields t = g_transaction_fields s"
  by (auto simp: Transaction_init_def set_serialization_def self_fields_fill_defaults Let_def
      split: sum.splits)

lemma g_fields_set_to_preset:
  "set_to_preset nm s = (Inr (), s') \<Longrightarrow> \<exists>P. presets nm = Some P \<and> g_transaction_fields s' = tx_fields P"
  by (auto simp: set_to_preset_def setter_defs split: option.splits)

text \<open>
  C2. A transaction constructed while preset P1 is active keeps its own copy of P1's
  transaction fields: after \<open>set_to_preset(P2)\<close>, for any name P2 (registered or not),
  the object is the same as before, its \<open>self.fields\<close> are still those of P1 and its
  serialization is the same, although the active transaction fields are now those of P2.
\<close>

theorem schema_isolation:
  assumes "set_to_preset p1 s0 = (Inr (), s1)"
    and "new_Transaction s1 vin vout locktime version None kwfields = Inr (a, s2)"
    and "set_to_preset p2 s2 = (r, s3)"
  shows "serialize_object s3 a = serialize_object s2 a \<and>
         (\<exists>A P1. object_at s2 a = Some A \<and> object_at s3 a = Some A \<and>
            presets p1 = Some P1 \<and> self_fields A = tx_fields P1) \<and>
         (\<forall>P2. presets p2 = Some P2 \<longrightarrow> g_transaction_fields s3 = tx_fields P2)"
proof -
  from assms(2) obtain t where
    t: "Transaction_init s1 vin vout locktime version None kwfields = Inr t"
    and a: "a = length (objects s1)" and s2: "s2 = s1\<lparr>objects := objects s1 @ [t]\<rparr>"
    by (auto simp: new_Transaction_def split: sum.splits)
  from assms(3) have s3: "s3 = snd (set_to_preset p2 s2)" by simp
  have o: "objects s3 = objects s2" unfolding s3 by (rule objects_set_to_preset)
  have at2: "object_at s2 a = Some t" by (simp add: object_at_def a s2)
  have at3: "object_at s3 a = Some t" using at2 unfolding object_at_def o .
  from g_fields_set_to_preset [OF assms(1)] obtain P1 where
    P1: "presets p1 = Some P1" and g1: "g_transaction_fields s1 = tx_fields P1" by blast
  have f: "self_fields t = tx_fields P1"
    using self_fields_Transaction_init [OF t] g1 by simp
  have ser: "serialize_object s3 a = serialize_object s2 a"
    by (simp add: serialize_object_def at2 at3)
  have g3: "\<forall>P2. presets p2 = Some P2 \<longrightarrow> g_transaction_fields s3 = tx_fields P2"
    unfolding s3 by (simp add: set_to_preset_def setter_defs)
  from ser at2 at3 P1 f g3 show ?thesis by blast
qed

text \<open>
  C5, as amended. \<open>from_tx\<close> on a Transaction never fails and leaves the schema
  \<open>self.fields\<close> of the transaction as it was (the transaction is not rebound to the
  active schema); every attribute the transaction has keeps its value, and an attribute
  it lacks gets the declared default of the field of that name in the active schema (of
  the first such field), or stays absent when the active schema has no such field.
\<close>

theorem from_tx_keeps_schema_fills_defaults:
  "\<exists>t'. from_tx s (HashmalTx t) = Inr t' \<and>
     self_fields t' = self_fields t \<and>
     (\<forall>nm v. attrs t nm = Some v \<longrightarrow> attrs t' nm = Some v) \<and>
     (\<forall>nm. attrs t nm = None \<longrightarrow>
        attrs t' nm = map_of (map (\<lambda>(a, f, k, d). (a, d)) (g_transaction_fields s)) nm)"
  by (simp add: from_tx_def self_fields_fill_defaults attrs_fill_defaults)

lemma tx_fields_Clams: "tx_fields ClamsPreset =
    [(''nVersion'', ''<i'', Some 4, PyInt 1),
     (''Timestamp'', ''<i'', Some 4, PyInt 0),
     (''vin'', ''inputs'', None, PyNone),
     (''vout'', ''outputs'', None, PyNone),
     (''nLockTime'', ''<I'', Some 4, PyInt 0),
     (''ClamSpeech'', ''bytes'', None, PyBytes [])]"
  by (simp add: preset_defs)

lemma set_to_preset_known:
  "presets nm = Some P \<Longrightarrow> set_to_preset nm s = (Inr (), snd (set_to_preset nm s))"
  by (simp add: set_to_preset_def)

lemma g_fields_after_preset:
  "presets nm = Some P \<Longrightarrow> g_transaction_fields (snd (set_to_preset nm s)) = tx_fields P"
  by (simp add: set_to_preset_def setter_defs)

lemma bitcoin_default_tx_attrs:
  "attrs bitcoin_default_tx ''nVersion'' = Some (PyInt 1)"
  "attrs bitcoin_default_tx ''vin'' = Some (PyTxIns [])"
  "attrs bitcoin_default_tx ''vout'' = Some (PyTxOuts [])"
  "attrs bitcoin_default_tx ''nLockTime'' = Some (PyInt 0)"
  "attrs bitcoin_default_tx ''Timestamp'' = None"
  "attrs bitcoin_default_tx ''ClamSpeech'' = None"
  "self_fields bitcoin_default_tx = tx_fields BitcoinPreset"
  by (simp_all add: bitcoin_default_tx_def)

lemma bitcoin_default_tx_init:
  "Transaction_init (snd (set_to_preset ''Bitcoin'' s)) None None 0 1 None [] = Inr bitcoin_default_tx"
  unfolding bitcoin_default_tx_def
  by (rule cls_Bitcoin [OF g_fields_after_preset [OF presets_Bitcoin]])

lemma bitcoin_default_tx_serialize:
  "stream_serialize bitcoin_default_tx = Inr [1,0,0,0,0,0,0,0,0,0]"
  unfolding stream_serialize_def bitcoin_default_tx_attrs(7)
  by (rule ser_fields_Bitcoin_example [OF bitcoin_default_tx_attrs(1-4)])

theorem schema_isolation_witness:
  "\<exists>s1 a s2 s3. set_to_preset ''Bitcoin'' start_state = (Inr (), s1) \<and>
     new_Transaction s1 None None 0 1 None [] = Inr (a, s2) \<and>
     set_to_preset ''Clams'' s2 = (Inr (), s3) \<and>
     serialize_object s2 a = Some (Inr [1,0,0,0,0,0,0,0,0,0]) \<and>
     serialize_object s3 a = serialize_object s2 a \<and>
     g_transaction_fields s3 = tx_fields ClamsPreset"
proof -
  let ?s1 = "snd (set_to_preset ''Bitcoin'' start_state)"
  let ?s2 = "?s1\<lparr>objects := objects ?s1 @ [bitcoin_default_tx]\<rparr>"
  let ?s3 = "snd (set_to_preset ''Clams'' ?s2)"
  have h1: "set_to_preset ''Bitcoin'' start_state = (Inr (), ?s1)"
    by (rule set_to_preset_known [OF presets_Bitcoin])
  have o: "objects ?s1 = []"
    unfolding objects_set_to_preset by (simp add: start_state_def)
  have h2: "new_Transaction ?s1 None None 0 1 None [] = Inr (0, ?s2)"
    unfolding new_Transaction_def bitcoin_default_tx_init by (simp add: o)
  have h3: "set_to_preset ''Clams'' ?s2 = (Inr (), ?s3)"
    by (rule set_to_preset_known [OF presets_Clams])
  note t = schema_isolation [OF h1 h2 h3]
  from t have e: "serialize_object ?s3 0 = serialize_object ?s2 0" by (rule conjunct1)
  from t presets_Clams have g: "g_transaction_fields ?s3 = tx_fields ClamsPreset" by blast
  have at: "object_at ?s2 0 = Some bitcoin_default_tx"
    by (simp add: object_at_def o)
  have v: "serialize_object ?s2 0 = Some (Inr [1,0,0,0,0,0,0,0,0,0])"
    unfolding serialize_object_def at by (simp add: bitcoin_default_tx_serialize)
  show ?thesis
    by (intro exI [of _ ?s1] exI [of _ 0] exI [of _ ?s2] exI [of _ ?s3] conjI h1 h2 h3 v e g)
qed

lemma fields_Bitcoin_neq_Clams: "tx_fields BitcoinPreset \<noteq> tx_fields ClamsPreset"
  by (simp add: tx_fields_Bitcoin tx_fields_Clams)

text \<open>
  C5 as stated fails: a transaction built under Bitcoin and passed to \<open>from_tx\<close> after
  \<open>set_to_preset('Clams')\<close> still has the Bitcoin fields as its schema, not the active
  Clams fields, and still serializes to the ten bytes of the Bitcoin format.
\<close>

theorem from_tx_does_not_rebind:
  "\<exists>t t'. Transaction_init (snd (set_to_preset ''Bitcoin'' start_state)) None None 0 1 None [] = Inr t \<and>
     from_tx (snd (set_to_preset ''Clams'' (snd (set_to_preset ''Bitcoin'' start_state)))) (HashmalTx t)
       = Inr t' \<and>
     g_transaction_fields (snd (set_to_preset ''Clams'' (snd (set_to_preset ''Bitcoin'' start_state))))
       = tx_fields ClamsPreset \<and>
     self_fields t' = tx_fields BitcoinPreset \<and>
     self_fields t' \<noteq> tx_fields ClamsPreset \<and>
     stream_serialize t' = Inr [1,0,0,0,0,0,0,0,0,0]"
proof -
  let ?sB = "snd (set_to_preset ''Bitcoin'' start_state)"
  let ?sC = "snd (set_to_preset ''Clams'' ?sB)"
  let ?t' = "fill_defaults (g_transaction_fields ?sC) bitcoin_default_tx"
  have a: "Transaction_init ?sB None None 0 1 None [] = Inr bitcoin_default_tx"
    by (rule bitcoin_default_tx_init)
  have b: "from_tx ?sC (HashmalTx bitcoin_default_tx) = Inr ?t'"
    by (simp add: from_tx_def)
  have g: "g_transaction_fields ?sC = tx_fields ClamsPreset"
    by (rule g_fields_after_preset [OF presets_Clams])
  have f: "self_fields ?t' = tx_fields BitcoinPreset"
    unfolding self_fields_fill_defaults by (rule bitcoin_default_tx_attrs(7))
  have n: "self_fields ?t' \<noteq> tx_fields ClamsPreset"
    unfolding f by (rule fields_Bitcoin_neq_Clams)
  have at: "attrs ?t' ''nVersion'' = Some (PyInt 1)" "attrs ?t' ''vin'' = Some (PyTxIns [])"
    "attrs ?t' ''vout'' = Some (PyTxOuts [])" "attrs ?t' ''nLockTime'' = Some (PyInt 0)"
    unfolding attrs_fill_defaults by (simp_all add: bitcoin_default_tx_attrs)
  have ser: "stream_serialize ?t' = Inr [1,0,0,0,0,0,0,0,0,0]"
    unfolding stream_serialize_def f by (rule ser_fields_Bitcoin_example [OF at])
  show ?thesis
    by (intro exI [of _ bitcoin_default_tx] exI [of _ ?t'] conjI a b g f n ser)
qed

theorem from_tx_keeps_schema_fills_defaults_witness:
  "\<exists>t'. from_tx (snd (set_to_preset ''Clams'' start_state)) (HashmalTx bitcoin_default_tx) = Inr t' \<and>
     self_fields t' = self_fields bitcoin_default_tx \<and>
     attrs bitcoin_default_tx ''nVersion'' = Some (PyInt 1) \<and>
     attrs t' ''nVersion'' = Some (PyInt 1) \<and>
     attrs bitcoin_default_tx ''Timestamp'' = None \<and>
     attrs t' ''Timestamp'' = Some (PyInt 0) \<and>
     attrs bitcoin_default_tx ''ClamSpeech'' = None \<and>
     attrs t' ''ClamSpeech'' = Some (PyBytes [])"
proof -
  let ?sC = "snd (set_to_preset ''Clams'' start_state)"
  have g: "g_transaction_fields ?sC = tx_fields ClamsPreset"
    by (rule g_fields_after_preset [OF presets_Clams])
  have m1: "map_of (map (\<lambda>(a, f, k, d). (a, d)) (g_transaction_fields ?sC)) ''Timestamp'' = Some (PyInt 0)"
    unfolding g tx_fields_Clams by simp
  have m2: "map_of (map (\<lambda>(a, f, k, d). (a, d)) (g_transaction_fields ?sC)) ''ClamSpeech'' = Some (PyBytes [])"
    unfolding g tx_fields_Clams by simp
  from from_tx_keeps_schema_fills_defaults [of ?sC bitcoin_default_tx] obtain t' where
    r: "from_tx ?sC (HashmalTx bitcoin_default_tx) = Inr t'"
    and f: "self_fields t' = self_fields bitcoin_default_tx"
    and keep: "\<forall>nm v. attrs bitcoin_default_tx nm = Some v \<longrightarrow> attrs t' nm = Some v"
    and fill: "\<forall>nm. attrs bitcoin_default_tx nm = None \<longrightarrow>
        attrs t' nm = map_of (map (\<lambda>(a, f, k, d). (a, d)) (g_transaction_fields ?sC)) nm"
    by blast
  from keep bitcoin_default_tx_attrs(1) have k1: "attrs t' ''nVersion'' = Some (PyInt 1)" by blast
  from fill bitcoin_default_tx_attrs(5) m1 have k2: "attrs t' ''Timestamp'' = Some (PyInt 0)"
    by simp
  from fill bitcoin_default_tx_attrs(6) m2 have k3: "attrs t' ''ClamSpeech'' = Some (PyBytes [])"
    by simp
  show ?thesis
    by (intro exI [of _ t'] conjI r f bitcoin_default_tx_attrs(1) k1 bitcoin_default_tx_attrs(5) k2
        bitcoin_default_tx_attrs(6) k3)
qed

section \<open>Round trip of the serializers\<close>

lemma length_le_encode: "length (le_encode k v) = k"
  by (induction k arbitrary: v) simp_all

lemma le_decode_encode: "v < 256 ^ k \<Longrightarrow> le_decode (le_encode k v) = v"
proof (induction k arbitrary: v)
  case 0
  then show ?case by simp
next
  case (Suc k)
  from Suc.prems have "v div 256 < 256 ^ k"
    by (simp add: less_mult_imp_div_less mult.commute)
  from Suc.IH [OF this] show ?case by (simp add: unat_of_nat)
qed

lemma pow256: "(256::nat) ^ w = 2 ^ (8 * w)"
proof -
  have "(256::nat) = 2 ^ 8" by simp
  then show ?thesis by (simp only: power_mult [symmetric])
qed

lemma signed_wrap:
  fixes i N :: int
  assumes "0 < N" "- N \<le> i" "i < N"
  shows "(if N \<le> i mod (2 * N) then i mod (2 * N) - 2 * N else i mod (2 * N)) = i"
proof (cases "0 \<le> i")
  case True
  with assms have "i mod (2 * N) = i" by (simp add: mod_pos_pos_trivial)
  with assms show ?thesis by simp
next
  case False
  have a: "0 \<le> i + 2 * N" and b: "i + 2 * N < 2 * N" using False assms by simp_all
  have "i mod (2 * N) = (i + 2 * N) mod (2 * N)" by simp
  also have "\<dots> = i + 2 * N" by (rule mod_pos_pos_trivial [OF a b])
  finally show ?thesis using False assms by simp
qed

lemma pack_unpack_value:
  assumes "0 < w" "int_fits sg w i"
  shows "(let u = int (le_decode (le_encode w (nat (i mod 2 ^ (8 * w)))))
          in (if sg \<and> 2 ^ (8 * w - 1) \<le> u then u - 2 ^ (8 * w) else u)) = i"
proof -
  define N :: int where "N = 2 ^ (8 * w - 1)"
  have N0: "0 < N" by (simp add: N_def)
  have "8 * w = Suc (8 * w - 1)" using assms(1) by simp
  then have "(2::int) ^ (8 * w) = 2 ^ Suc (8 * w - 1)" by (rule arg_cong)
  then have M: "(2::int) ^ (8 * w) = 2 * N" by (simp only: power_Suc N_def)
  have nn: "0 \<le> i mod (2 * N)" and lt: "i mod (2 * N) < 2 * N" using N0 by simp_all
  have "nat (i mod (2 * N)) < nat (2 * N)" using nn lt by simp
  also have "nat (2 * N) = 2 ^ (8 * w)"
    unfolding M [symmetric] by (simp add: nat_power_eq)
  finally have "nat (i mod (2 * N)) < 256 ^ w" by (simp only: pow256)
  from le_decode_encode [OF this] nn
  have d: "int (le_decode (le_encode w (nat (i mod (2 * N))))) = i mod (2 * N)" by simp
  have r: "(if sg \<and> N \<le> i mod (2 * N) then i mod (2 * N) - 2 * N else i mod (2 * N)) = i"
  proof (cases sg)
    case True
    with assms(2) have "- N \<le> i" "i < N" by (simp_all add: int_fits_def N_def)
    from signed_wrap [OF N0 this] True show ?thesis by simp
  next
    case False
    with assms(2) have "0 \<le> i" "i < 2 * N" by (simp_all add: int_fits_def M)
    then have "i mod (2 * N) = i" by (simp add: mod_pos_pos_trivial)
    with False show ?thesis by simp
  qed
  show ?thesis unfolding M Let_def d N_def [symmetric] by (rule r)
qed

lemma struct_formats_bounds:
  "map_of struct_formats fmt = Some (be, sg, w) \<Longrightarrow> 0 < w \<and> w \<le> 8"
  by (auto simp: struct_formats_def split: if_splits)

lemma struct_pack_fits:
  assumes "map_of struct_formats fmt = Some (be, sg, w)" "int_fits sg w i"
  shows "struct_pack fmt (PyInt i) = Inr (byte_order be (le_encode w (nat (i mod 2 ^ (8 * w)))))"
  using assms by (simp add: struct_pack_def)

lemma struct_unpack_pack:
  assumes "map_of struct_formats fmt = Some (be, sg, w)" "int_fits sg w i"
  shows "struct_unpack fmt (byte_order be (le_encode w (nat (i mod 2 ^ (8 * w))))) = Inr i"
proof -
  from struct_formats_bounds [OF assms(1)] have w: "0 < w" by simp
  show ?thesis
    unfolding struct_unpack_def assms(1) option.case prod.case byte_order_simps length_le_encode
    using pack_unpack_value [OF w assms(2)] by (simp only: Let_def simp_thms if_False)
qed

lemma ser_read_append:
  assumes "length d = k" "k \<le> MAX_SIZE"
  shows "ser_read (d @ rest) (Some k) = Inr (d, rest)"
  using assms by (simp add: ser_read_def)

lemma MAX_SIZE_ge8: "8 \<le> MAX_SIZE"
  by (simp add: MAX_SIZE_def)

lemma unpack_from_pack:
  assumes "map_of struct_formats fmt = Some (be, sg, w)" "int_fits sg w i"
  shows "\<exists>bs. struct_pack fmt (PyInt i) = Inr bs \<and> length bs = w \<and>
           (\<forall>rest. unpack_from fmt (Some w) (bs @ rest) = Inr (i, rest))"
proof -
  let ?bs = "byte_order be (le_encode w (nat (i mod 2 ^ (8 * w))))"
  have lb: "length ?bs = w" by (simp add: length_le_encode)
  from struct_formats_bounds [OF assms(1)] MAX_SIZE_ge8 have w: "w \<le> MAX_SIZE" by simp
  have r: "ser_read (?bs @ rest) (Some w) = Inr (?bs, rest)" for rest
    by (rule ser_read_append [OF lb w])
  have u: "unpack_from fmt (Some w) (?bs @ rest) = Inr (i, rest)" for rest
    unfolding unpack_from_def r by (simp add: struct_unpack_pack [OF assms])
  from struct_pack_fits [OF assms] lb u show ?thesis by blast
qed

lemma map_of_fmt_H: "map_of struct_formats ''<H'' = Some (False, False, 2)"
  by (simp add: struct_formats_def)
lemma map_of_fmt_q: "map_of struct_formats ''<q'' = Some (False, True, 8)"
  by (simp add: struct_formats_def)
lemma map_of_fmt_Q: "map_of struct_formats ''<Q'' = Some (False, False, 8)"
  by (simp add: struct_formats_def)

lemma fits_H: "n \<le> 0xffff \<Longrightarrow> int_fits False 2 (int n)"
  by (simp add: int_fits_def)
lemma fits_I: "n \<le> 0xffffffff \<Longrightarrow> int_fits False 4 (int n)"
  by (simp add: int_fits_def)
lemma fits_Q: "n < 2 ^ 64 \<Longrightarrow> int_fits False 8 (int n)"
  by (simp add: int_fits_def)

lemma ser_read_byte: "ser_read (b # rest) (Some 1) = Inr ([b], rest)"
  by (simp add: ser_read_def MAX_SIZE_def)

lemma varint_deser_small:
  "unat b < 0xfd \<Longrightarrow> VarInt_stream_deserialize (b # rest) = Inr (unat b, rest)"
  unfolding VarInt_stream_deserialize_def ser_read_byte by simp

lemma varint_deser_fd:
  "unpack_from ''<H'' (Some 2) rest = Inr (v, r) \<Longrightarrow>
     VarInt_stream_deserialize (0xfd # rest) = Inr (nat v, r)"
  unfolding VarInt_stream_deserialize_def ser_read_byte by simp

lemma varint_deser_fe:
  "unpack_from ''<I'' (Some 4) rest = Inr (v, r) \<Longrightarrow>
     VarInt_stream_deserialize (0xfe # rest) = Inr (nat v, r)"
  unfolding VarInt_stream_deserialize_def ser_read_byte by simp

lemma varint_deser_ff:
  "unpack_from ''<Q'' (Some 8) rest = Inr (v, r) \<Longrightarrow>
     VarInt_stream_deserialize (0xff # rest) = Inr (nat v, r)"
  unfolding VarInt_stream_deserialize_def ser_read_byte by simp

lemma varint_roundtrip:
  assumes "n < 2 ^ 64"
  shows "\<exists>bs. VarInt_stream_serialize n = Inr bs \<and>
           (\<forall>rest. VarInt_stream_deserialize (bs @ rest) = Inr (n, rest))"
proof -
  consider (a) "n < 0xfd" | (b) "\<not> n < 0xfd" "n \<le> 0xffff"
    | (c) "\<not> n < 0xfd" "\<not> n \<le> 0xffff" "n \<le> 0xffffffff"
    | (d) "\<not> n < 0xfd" "\<not> n \<le> 0xffff" "\<not> n \<le> 0xffffffff" by blast
  then show ?thesis
  proof cases
    case a
    then have u: "unat (word_of_nat n :: byte) = n" by (simp add: unat_of_nat)
    have s: "VarInt_stream_serialize n = Inr [word_of_nat n]"
      using a by (simp add: VarInt_stream_serialize_def)
    have d: "VarInt_stream_deserialize ([word_of_nat n] @ rest) = Inr (n, rest)" for rest
      using varint_deser_small [of "word_of_nat n" rest] a u by simp
    from s d show ?thesis by blast
  next
    case b
    from unpack_from_pack [OF map_of_fmt_H fits_H [OF b(2)]] obtain bs where
      p: "struct_pack ''<H'' (PyInt (int n)) = Inr bs"
      and u: "\<And>rest. unpack_from ''<H'' (Some 2) (bs @ rest) = Inr (int n, rest)" by blast
    have s: "VarInt_stream_serialize n = Inr (0xfd # bs)"
      using b p by (simp add: VarInt_stream_serialize_def)
    have d: "VarInt_stream_deserialize ((0xfd # bs) @ rest) = Inr (n, rest)" for rest
      using varint_deser_fd [OF u [of rest]] by simp
    from s d show ?thesis by blast
  next
    case c
    from unpack_from_pack [OF map_of_fmt_I fits_I [OF c(3)]] obtain bs where
      p: "struct_pack ''<I'' (PyInt (int n)) = Inr bs"
      and u: "\<And>rest. unpack_from ''<I'' (Some 4) (bs @ rest) = Inr (int n, rest)" by blast
    have s: "VarInt_stream_serialize n = Inr (0xfe # bs)"
      using c p by (simp add: VarInt_stream_serialize_def)
    have d: "VarInt_stream_deserialize ((0xfe # bs) @ rest) = Inr (n, rest)" for rest
      using varint_deser_fe [OF u [of rest]] by simp
    from s d show ?thesis by blast
  next
    case d
    from unpack_from_pack [OF map_of_fmt_Q fits_Q [OF assms]] obtain bs where
      p: "struct_pack ''<Q'' (PyInt (int n)) = Inr bs"
      and u: "\<And>rest. unpack_from ''<Q'' (Some 8) (bs @ rest) = Inr (int n, rest)" by blast
    have s: "VarInt_stream_serialize n = Inr (0xff # bs)"
      using d p by (simp add: VarInt_stream_serialize_def)
    have e: "VarInt_stream_deserialize ((0xff # bs) @ rest) = Inr (n, rest)" for rest
      using varint_deser_ff [OF u [of rest]] by simp
    from s e show ?thesis by blast
  qed
qed

lemma MAX_SIZE_lt: "MAX_SIZE < 2 ^ 64"
  by (simp add: MAX_SIZE_def)

lemma bytes_roundtrip:
  assumes "length b \<le> MAX_SIZE"
  shows "\<exists>bs. Bytes_stream_serialize b = Inr bs \<and>
           (\<forall>rest. Bytes_stream_deserialize (bs @ rest) = Inr (b, rest))"
proof -
  from assms MAX_SIZE_lt have "length b < 2 ^ 64" by simp
  from varint_roundtrip [OF this] obtain p where
    s: "VarInt_stream_serialize (length b) = Inr p"
    and d: "\<And>rest. VarInt_stream_deserialize (p @ rest) = Inr (length b, rest)" by blast
  have s': "Bytes_stream_serialize b = Inr (p @ b)"
    by (simp add: Bytes_stream_serialize_def s)
  have d': "Bytes_stream_deserialize ((p @ b) @ rest) = Inr (b, rest)" for rest
    unfolding Bytes_stream_deserialize_def append_assoc d
    by (simp add: ser_read_append [OF refl assms])
  from s' d' show ?thesis by blast
qed

lemma serialize_all_roundtrip:
  assumes inner: "\<And>x. P x \<Longrightarrow>
      \<exists>bs. inner_ser x = Inr bs \<and> (\<forall>rest. inner_des (bs @ rest) = Inr (x, rest))"
    and "list_all P xs"
  shows "\<exists>bs. serialize_all inner_ser xs = Inr bs \<and>
           (\<forall>rest. deserialize_n inner_des (length xs) (bs @ rest) = Inr (xs, rest))"
  using assms(2)
proof (induction xs)
  case Nil
  then show ?case by simp
next
  case (Cons x xs)
  from Cons.prems have px: "P x" and pxs: "list_all P xs" by simp_all
  from inner [OF px] obtain a where
    a: "inner_ser x = Inr a" and da: "\<And>rest. inner_des (a @ rest) = Inr (x, rest)" by blast
  from Cons.IH [OF pxs] obtain b where
    b: "serialize_all inner_ser xs = Inr b"
    and db: "\<And>rest. deserialize_n inner_des (length xs) (b @ rest) = Inr (xs, rest)" by blast
  have s: "serialize_all inner_ser (x # xs) = Inr (a @ b)" by (simp add: a b)
  have d: "deserialize_n inner_des (length (x # xs)) ((a @ b) @ rest) = Inr (x # xs, rest)" for rest
    by (simp add: da db)
  from s d show ?case by blast
qed

lemma vector_roundtrip:
  assumes inner: "\<And>x. P x \<Longrightarrow>
      \<exists>bs. inner_ser x = Inr bs \<and> (\<forall>rest. inner_des (bs @ rest) = Inr (x, rest))"
    and "list_all P xs" and "length xs < 2 ^ 64"
  shows "\<exists>bs. Vector_stream_serialize inner_ser xs = Inr bs \<and>
           (\<forall>rest. Vector_stream_deserialize inner_des (bs @ rest) = Inr (xs, rest))"
proof -
  from varint_roundtrip [OF assms(3)] obtain p where
    p: "VarInt_stream_serialize (length xs) = Inr p"
    and dp: "\<And>rest. VarInt_stream_deserialize (p @ rest) = Inr (length xs, rest)" by blast
  from serialize_all_roundtrip [of P inner_ser inner_des xs, OF inner assms(2)] obtain b where
    b: "serialize_all inner_ser xs = Inr b"
    and db: "\<And>rest. deserialize_n inner_des (length xs) (b @ rest) = Inr (xs, rest)" by blast
  have s: "Vector_stream_serialize inner_ser xs = Inr (p @ b)"
    by (simp add: Vector_stream_serialize_def p b)
  have d: "Vector_stream_deserialize inner_des ((p @ b) @ rest) = Inr (xs, rest)" for rest
    by (simp add: Vector_stream_deserialize_def dp db)
  from s d show ?thesis by blast
qed

lemma MAX_SIZE_ge32: "32 \<le> MAX_SIZE"
  by (simp add: MAX_SIZE_def)

lemma outpoint_roundtrip:
  assumes "valid_outpoint p"
  shows "\<exists>bs. COutPoint_stream_serialize p = Inr bs \<and>
           (\<forall>rest. COutPoint_stream_deserialize (bs @ rest) = Inr (p, rest))"
proof -
  from assms have h: "length (op_hash p) = 32" and n: "int_fits False 4 (op_n p)"
    by (simp_all add: valid_outpoint_def)
  from unpack_from_pack [OF map_of_fmt_I n] obtain bs where
    pk: "struct_pack ''<I'' (PyInt (op_n p)) = Inr bs"
    and u: "\<And>rest. unpack_from ''<I'' (Some 4) (bs @ rest) = Inr (op_n p, rest)" by blast
  have s: "COutPoint_stream_serialize p = Inr (op_hash p @ bs)"
    by (simp add: COutPoint_stream_serialize_def h pk)
  have d: "COutPoint_stream_deserialize ((op_hash p @ bs) @ rest) = Inr (p, rest)" for rest
    unfolding COutPoint_stream_deserialize_def append_assoc
      ser_read_append [OF h MAX_SIZE_ge32] by (simp add: u)
  from s d show ?thesis by blast
qed

lemma txin_roundtrip:
  assumes "valid_txin x"
  shows "\<exists>bs. CTxIn_stream_serialize x = Inr bs \<and>
           (\<forall>rest. CTxIn_stream_deserialize (bs @ rest) = Inr (x, rest))"
proof -
  from assms have vp: "valid_outpoint (prevout x)" and ls: "length (scriptSig x) \<le> MAX_SIZE"
    and n: "int_fits False 4 (nSequence x)" by (simp_all add: valid_txin_def)
  from outpoint_roundtrip [OF vp] obtain a where
    a: "COutPoint_stream_serialize (prevout x) = Inr a"
    and da: "\<And>rest. COutPoint_stream_deserialize (a @ rest) = Inr (prevout x, rest)" by blast
  from bytes_roundtrip [OF ls] obtain b where
    b: "Bytes_stream_serialize (scriptSig x) = Inr b"
    and db: "\<And>rest. Bytes_stream_deserialize (b @ rest) = Inr (scriptSig x, rest)" by blast
  from unpack_from_pack [OF map_of_fmt_I n] obtain c where
    c: "struct_pack ''<I'' (PyInt (nSequence x)) = Inr c"
    and dc: "\<And>rest. unpack_from ''<I'' (Some 4) (c @ rest) = Inr (nSequence x, rest)" by blast
  have s: "CTxIn_stream_serialize x = Inr (a @ b @ c)"
    by (simp add: CTxIn_stream_serialize_def a b c)
  have d: "CTxIn_stream_deserialize ((a @ b @ c) @ rest) = Inr (x, rest)" for rest
    by (simp add: CTxIn_stream_deserialize_def da db dc)
  from s d show ?thesis by blast
qed

lemma txout_roundtrip:
  assumes "valid_txout x"
  shows "\<exists>bs. CTxOut_stream_serialize x = Inr bs \<and>
           (\<forall>rest. CTxOut_stream_deserialize (bs @ rest) = Inr (x, rest))"
proof -
  from assms have n: "int_fits True 8 (nValue x)" and ls: "length (scriptPubKey x) \<le> MAX_SIZE"
    by (simp_all add: valid_txout_def)
  from unpack_from_pack [OF map_of_fmt_q n] obtain a where
    a: "struct_pack ''<q'' (PyInt (nValue x)) = Inr a"
    and da: "\<And>rest. unpack_from ''<q'' (Some 8) (a @ rest) = Inr (nValue x, rest)" by blast
  from bytes_roundtrip [OF ls] obtain b where
    b: "Bytes_stream_serialize (scriptPubKey x) = Inr b"
    and db: "\<And>rest. Bytes_stream_deserialize (b @ rest) = Inr (scriptPubKey x, rest)" by blast
  have s: "CTxOut_stream_serialize x = Inr (a @ b)"
    by (simp add: CTxOut_stream_serialize_def a b)
  have d: "CTxOut_stream_deserialize ((a @ b) @ rest) = Inr (x, rest)" for rest
    by (simp add: CTxOut_stream_deserialize_def da db)
  from s d show ?thesis by blast
qed

lemma field_roundtrip:
  assumes "codec_field fld" "fits_field e fld"
  shows "\<exists>b v. serialize_field e fld = Inr b \<and> attrs e (fst fld) = Some v \<and>
           (\<forall>self rest tail. deserialize_fields (fld # tail) self (b @ rest) =
              deserialize_fields tail (setattr self (fst fld) v) rest)"
proof -
  obtain attr fmt nb dflt where fld: "fld = (attr, fmt, nb, dflt)" by (cases fld) auto
  consider (struct) "fmt \<notin> set [''inputs'', ''outputs'', ''bytes'']"
    | (inputs) "fmt = ''inputs''" | (outputs) "fmt = ''outputs''" | (bytes) "fmt = ''bytes''"
    by auto
  then show ?thesis
  proof cases
    case struct
    from assms(1) struct obtain be sg w where m: "map_of struct_formats fmt = Some (be, sg, w)"
      and nb: "nb = Some w"
      by (auto simp: codec_field_def fld split: option.splits)
    from assms(2) struct m obtain i where a: "attrs e attr = Some (PyInt i)"
      and f: "int_fits sg w i"
      by (auto simp: fits_field_def fld split: option.splits pyval.splits)
    from unpack_from_pack [OF m f] obtain bs where
      pk: "struct_pack fmt (PyInt i) = Inr bs"
      and u: "\<And>rest. unpack_from fmt (Some w) (bs @ rest) = Inr (i, rest)" by blast
    have s: "serialize_field e fld = Inr bs"
      using struct by (simp add: serialize_field_def fld getattr_def a pk)
    have d: "deserialize_fields (fld # tail) self (bs @ rest) =
              deserialize_fields tail (setattr self (fst fld) (PyInt i)) rest" for self rest tail
      using struct by (simp add: fld nb u)
    from s a d show ?thesis unfolding fld fst_conv by blast
  next
    case inputs
    from assms(1) inputs have nm: "attr = ''vin''" by (simp add: codec_field_def fld)
    from assms(2) inputs obtain xs where a: "attrs e attr = Some (PyTxIns xs)"
      and l: "length xs < 2 ^ 64" and v: "list_all valid_txin xs"
      by (auto simp: fits_field_def fld split: option.splits pyval.splits)
    from vector_roundtrip [of valid_txin CTxIn_stream_serialize CTxIn_stream_deserialize xs,
        OF txin_roundtrip v l] obtain bs where
      pk: "Vector_stream_serialize CTxIn_stream_serialize xs = Inr bs"
      and u: "\<And>rest. Vector_stream_deserialize CTxIn_stream_deserialize (bs @ rest) = Inr (xs, rest)"
      by blast
    have s: "serialize_field e fld = Inr bs"
      using a nm by (simp add: serialize_field_def fld inputs getattr_def serialize_vin_def pk)
    have d: "deserialize_fields (fld # tail) self (bs @ rest) =
              deserialize_fields tail (setattr self (fst fld) (PyTxIns xs)) rest" for self rest tail
      by (simp add: fld inputs u)
    from s a d show ?thesis unfolding fld fst_conv by blast
  next
    case outputs
    from assms(1) outputs have nm: "attr = ''vout''" by (simp add: codec_field_def fld)
    from assms(2) outputs obtain xs where a: "attrs e attr = Some (PyTxOuts xs)"
      and l: "length xs < 2 ^ 64" and v: "list_all valid_txout xs"
      by (auto simp: fits_field_def fld split: option.splits pyval.splits)
    from vector_roundtrip [of valid_txout CTxOut_stream_serialize CTxOut_stream_deserialize xs,
        OF txout_roundtrip v l] obtain bs where
      pk: "Vector_stream_serialize CTxOut_stream_serialize xs = Inr bs"
      and u: "\<And>rest. Vector_stream_deserialize CTxOut_stream_deserialize (bs @ rest) = Inr (xs, rest)"
      by blast
    have s: "serialize_field e fld = Inr bs"
      using a nm by (simp add: serialize_field_def fld outputs getattr_def serialize_vout_def pk)
    have d: "deserialize_fields (fld # tail) self (bs @ rest) =
              deserialize_fields tail (setattr self (fst fld) (PyTxOuts xs)) rest" for self rest tail
      by (simp add: fld outputs u)
    from s a d show ?thesis unfolding fld fst_conv by blast
  next
    case bytes
    from assms(2) bytes obtain b where a: "attrs e attr = Some (PyBytes b)"
      and l: "length b \<le> MAX_SIZE"
      by (auto simp: fits_field_def fld split: option.splits pyval.splits)
    from bytes_roundtrip [OF l] obtain bs where
      pk: "Bytes_stream_serialize b = Inr bs"
      and u: "\<And>rest. Bytes_stream_deserialize (bs @ rest) = Inr (b, rest)" by blast
    have s: "serialize_field e fld = Inr bs"
      using a by (simp add: serialize_field_def fld bytes getattr_def serialize_bytes_def pk)
    have d: "deserialize_fields (fld # tail) self (bs @ rest) =
              deserialize_fields tail (setattr self (fst fld) (PyBytes b)) rest" for self rest tail
      by (simp add: fld bytes u)
    from s a d show ?thesis unfolding fld fst_conv by blast
  qed
qed

lemma fields_roundtrip:
  assumes "list_all codec_field fs" "list_all (fits_field e) fs"
  shows "\<exists>bs. serialize_fields fs e = Inr bs \<and>
           (\<forall>e0 rest. \<exists>e'. deserialize_fields fs e0 (bs @ rest) = Inr (e', rest) \<and>
              self_fields e' = self_fields e0 \<and>
              (\<forall>nm. attrs e' nm = (if nm \<in> set (map fst fs) then attrs e nm else attrs e0 nm)))"
  using assms
proof (induction fs)
  case Nil
  then show ?case by simp
next
  case (Cons fld fs)
  from Cons.prems have c: "codec_field fld" and cs: "list_all codec_field fs"
    and f: "fits_field e fld" and fs: "list_all (fits_field e) fs" by simp_all
  from field_roundtrip [OF c f] obtain b v where
    s1: "serialize_field e fld = Inr b" and a: "attrs e (fst fld) = Some v"
    and d1: "\<And>self rest tail. deserialize_fields (fld # tail) self (b @ rest) =
              deserialize_fields tail (setattr self (fst fld) v) rest" by blast
  from Cons.IH [OF cs fs] obtain bs where
    s2: "serialize_fields fs e = Inr bs"
    and d2: "\<And>e0 rest. \<exists>e'. deserialize_fields fs e0 (bs @ rest) = Inr (e', rest) \<and>
              self_fields e' = self_fields e0 \<and>
              (\<forall>nm. attrs e' nm = (if nm \<in> set (map fst fs) then attrs e nm else attrs e0 nm))"
    by blast
  have s: "serialize_fields (fld # fs) e = Inr (b @ bs)" by (simp add: s1 s2)
  have d: "\<exists>e'. deserialize_fields (fld # fs) e0 ((b @ bs) @ rest) = Inr (e', rest) \<and>
              self_fields e' = self_fields e0 \<and>
              (\<forall>nm. attrs e' nm = (if nm \<in> set (map fst (fld # fs)) then attrs e nm else attrs e0 nm))"
    for e0 rest
  proof -
    from d2 [of "setattr e0 (fst fld) v" rest] obtain e' where
      r: "deserialize_fields fs (setattr e0 (fst fld) v) (bs @ rest) = Inr (e', rest)"
      and sf: "self_fields e' = self_fields (setattr e0 (fst fld) v)"
      and at: "\<And>nm. attrs e' nm = (if nm \<in> set (map fst fs) then attrs e nm
                 else attrs (setattr e0 (fst fld) v) nm)" by blast
    have r': "deserialize_fields (fld # fs) e0 ((b @ bs) @ rest) = Inr (e', rest)"
      unfolding append_assoc d1 by (rule r)
    have sf': "self_fields e' = self_fields e0" using sf by (simp add: setattr_def)
    have at': "attrs e' nm = (if nm \<in> set (map fst (fld # fs)) then attrs e nm else attrs e0 nm)"
      for nm
      using at [of nm] a by (auto simp: setattr_def)
    from r' sf' at' show ?thesis by blast
  qed
  from s d show ?case by blast
qed

lemma codec_schema_presets: "P \<in> set presets_list \<Longrightarrow> codec_schema (tx_fields P)"
  by (auto simp: presets_list_def preset_defs codec_schema_def codec_field_def
      map_of_fmt_i map_of_fmt_I)

lemma Transaction_init_default:
  "\<exists>e0. Transaction_init s None None 0 1 None [] = Inr e0 \<and> self_fields e0 = g_transaction_fields s"
  by (simp add: Transaction_init_def CMutableTransaction_init_def set_serialization_def
      self_fields_fill_defaults Let_def)

lemma codec_schema_roundtrip:
  assumes "codec_schema (self_fields e)" "g_transaction_fields s = self_fields e" "valid_entity e"
  shows "\<exists>bs. stream_serialize e = Inr bs \<and>
           (\<forall>rest. \<exists>e'. stream_deserialize s (bs @ rest) = Inr (e', rest) \<and>
              self_fields e' = self_fields e \<and>
              (\<forall>nm \<in> set (map fst (self_fields e)). attrs e' nm = attrs e nm))"
proof -
  from assms(1) have c: "list_all codec_field (self_fields e)" by (simp add: codec_schema_def)
  from assms(3) have v: "list_all (fits_field e) (self_fields e)" by (simp add: valid_entity_def)
  from fields_roundtrip [OF c v] obtain bs where
    s: "serialize_fields (self_fields e) e = Inr bs"
    and d: "\<And>e0 rest. \<exists>e'. deserialize_fields (self_fields e) e0 (bs @ rest) = Inr (e', rest) \<and>
              self_fields e' = self_fields e0 \<and>
              (\<forall>nm. attrs e' nm = (if nm \<in> set (map fst (self_fields e)) then attrs e nm
                 else attrs e0 nm))" by blast
  from Transaction_init_default [of s] obtain e0 where
    i: "Transaction_init s None None 0 1 None [] = Inr e0"
    and f0: "self_fields e0 = self_fields e" using assms(2) by auto
  have s': "stream_serialize e = Inr bs" by (simp add: stream_serialize_def s)
  have d': "\<exists>e'. stream_deserialize s (bs @ rest) = Inr (e', rest) \<and>
              self_fields e' = self_fields e \<and>
              (\<forall>nm \<in> set (map fst (self_fields e)). attrs e' nm = attrs e nm)" for rest
  proof -
    from d [of e0 rest] obtain e' where
      r: "deserialize_fields (self_fields e) e0 (bs @ rest) = Inr (e', rest)"
      and sf: "self_fields e' = self_fields e0"
      and at: "\<And>nm. attrs e' nm = (if nm \<in> set (map fst (self_fields e)) then attrs e nm
                 else attrs e0 nm)" by blast
    have r': "stream_deserialize s (bs @ rest) = Inr (e', rest)"
      by (simp add: stream_deserialize_def i f0 r)
    from r' sf f0 at show ?thesis by auto
  qed
  from s' d' show ?thesis by blast
qed

text \<open>
  C1, as amended. For each of the four presets and every valid transaction whose schema
  is the preset's transaction fields (its attributes fit the fields' encodings: integers
  within the range of their format, well-formed inputs and outputs, blobs and scripts of
  at most MAX_SIZE bytes, see \<open>valid_entity\<close>), \<open>stream_serialize\<close> succeeds, and
  \<open>stream_deserialize\<close> of the bytes written, with the same fields active, consumes all
  of them and gives a transaction with the same schema and, for every field of the
  schema, the same attribute value.
\<close>

theorem stream_roundtrip:
  assumes "P \<in> set presets_list" and "g_transaction_fields s = tx_fields P"
    and "self_fields e = tx_fields P" and "valid_entity e"
  shows "\<exists>bs. stream_serialize e = Inr bs \<and>
           (\<exists>e'. stream_deserialize s bs = Inr (e', []) \<and>
              self_fields e' = self_fields e \<and>
              (\<forall>nm \<in> set (map fst (self_fields e)). attrs e' nm = attrs e nm))"
proof -
  from codec_schema_presets [OF assms(1)] assms(3) have c: "codec_schema (self_fields e)" by simp
  from assms(2,3) have g: "g_transaction_fields s = self_fields e" by simp
  from codec_schema_roundtrip [OF c g assms(4)] obtain bs where
    s: "stream_serialize e = Inr bs"
    and d: "\<And>rest. \<exists>e'. stream_deserialize s (bs @ rest) = Inr (e', rest) \<and>
              self_fields e' = self_fields e \<and>
              (\<forall>nm \<in> set (map fst (self_fields e)). attrs e' nm = attrs e nm)" by blast
  from d [of "[]"] s show ?thesis by auto
qed

lemma clams_example_valid: "valid_entity clams_example_tx"
  by (simp add: valid_entity_def clams_example_tx_def tx_fields_Clams fits_field_def
      map_of_fmt_i map_of_fmt_I int_fits_def MAX_SIZE_def valid_txin_def valid_txout_def
      valid_outpoint_def)

theorem stream_roundtrip_witness:
  "ClamsPreset \<in> set presets_list \<and>
   g_transaction_fields (snd (set_to_preset ''Clams'' start_state)) = tx_fields ClamsPreset \<and>
   self_fields clams_example_tx = tx_fields ClamsPreset \<and>
   valid_entity clams_example_tx \<and>
   (\<exists>bs. stream_serialize clams_example_tx = Inr bs \<and>
      (\<exists>e'. stream_deserialize (snd (set_to_preset ''Clams'' start_state)) bs = Inr (e', []) \<and>
         self_fields e' = self_fields clams_example_tx \<and>
         (\<forall>nm \<in> set (map fst (self_fields clams_example_tx)).
            attrs e' nm = attrs clams_example_tx nm)))"
proof -
  have p: "ClamsPreset \<in> set presets_list" by (simp add: presets_list_def)
  have g: "g_transaction_fields (snd (set_to_preset ''Clams'' start_state)) = tx_fields ClamsPreset"
    by (rule g_fields_after_preset [OF presets_Clams])
  have f: "self_fields clams_example_tx = tx_fields ClamsPreset"
    by (simp add: clams_example_tx_def)
  show ?thesis
    by (intro conjI p g f clams_example_valid stream_roundtrip [OF p g f clams_example_valid])
qed

section \<open>Reading a short input\<close>

















































lemma stream_deserialize_fields:
  "\<exists>e0. stream_deserialize s f = deserialize_fields (g_transaction_fields s) e0 f"
proof -
  from Transaction_init_default [of s] obtain e0 where
    "Transaction_init s None None 0 1 None [] = Inr e0" "self_fields e0 = g_transaction_fields s"
    by blast
  then have "stream_deserialize s f = deserialize_fields (g_transaction_fields s) e0 f"
    by (simp add: stream_deserialize_def)
  then show ?thesis by blast
qed












section \<open>Entities the wire format cannot carry\<close>

lemma fields_prefix_roundtrip:
  assumes "list_all codec_field fs" "list_all (fits_field e) fs"
  shows "\<exists>b. (\<forall>tail. serialize_fields (fs @ tail) e =
                 (case serialize_fields tail e of Inl x \<Rightarrow> Inl x | Inr t \<Rightarrow> Inr (b @ t))) \<and>
             (\<forall>tail e0 rest. \<exists>e1. deserialize_fields (fs @ tail) e0 (b @ rest) =
                 deserialize_fields tail e1 rest)"
  using assms
proof (induction fs)
  case Nil
  have "\<forall>tail. serialize_fields ([] @ tail) e =
          (case serialize_fields tail e of Inl x \<Rightarrow> Inl x | Inr t \<Rightarrow> Inr ([] @ t))"
    by (simp split: sum.splits)
  moreover have "\<forall>tail e0 rest. \<exists>e1. deserialize_fields ([] @ tail) e0 ([] @ rest) =
          deserialize_fields tail e1 rest" by auto
  ultimately show ?case by blast
next
  case (Cons fld fs)
  from Cons.prems have c: "codec_field fld" and cs: "list_all codec_field fs"
    and f: "fits_field e fld" and fs: "list_all (fits_field e) fs" by simp_all
  from field_roundtrip [OF c f] obtain b1 v where
    s1: "serialize_field e fld = Inr b1"
    and d1: "\<And>self rest tail. deserialize_fields (fld # tail) self (b1 @ rest) =
              deserialize_fields tail (setattr self (fst fld) v) rest" by blast
  from Cons.IH [OF cs fs] obtain b2 where
    s2: "\<And>tail. serialize_fields (fs @ tail) e =
                 (case serialize_fields tail e of Inl x \<Rightarrow> Inl x | Inr t \<Rightarrow> Inr (b2 @ t))"
    and d2: "\<And>tail e0 rest. \<exists>e1. deserialize_fields (fs @ tail) e0 (b2 @ rest) =
                 deserialize_fields tail e1 rest" by blast
  have s: "serialize_fields ((fld # fs) @ tail) e =
          (case serialize_fields tail e of Inl x \<Rightarrow> Inl x | Inr t \<Rightarrow> Inr ((b1 @ b2) @ t))"
    for tail
    by (simp add: s1 s2 split: sum.splits)
  have d: "\<exists>e1. deserialize_fields ((fld # fs) @ tail) e0 ((b1 @ b2) @ rest) =
          deserialize_fields tail e1 rest" for tail e0 rest
  proof -
    from d2 [of tail "setattr e0 (fst fld) v" rest] obtain e1 where
      "deserialize_fields (fs @ tail) (setattr e0 (fst fld) v) (b2 @ rest) =
         deserialize_fields tail e1 rest" by blast
    then have "deserialize_fields ((fld # fs) @ tail) e0 ((b1 @ b2) @ rest) =
         deserialize_fields tail e1 rest"
      unfolding append_Cons append_assoc d1 .
    then show ?thesis by blast
  qed
  from s d show ?case by blast
qed

lemma MAX_SIZE_Suc_lt: "MAX_SIZE + 1 < 2 ^ 64"
  by (simp add: MAX_SIZE_def)

lemma long_blob_field:
  assumes "attrs e attr = Some (PyBytes blob)" "length blob = MAX_SIZE + 1"
  shows "\<exists>b. serialize_fields [(attr, ''bytes'', nb, dflt)] e = Inr b \<and>
           (\<forall>e1. deserialize_fields [(attr, ''bytes'', nb, dflt)] e1 b = Inl SerializationError)"
proof -
  from varint_roundtrip [OF MAX_SIZE_Suc_lt] obtain p where
    p: "VarInt_stream_serialize (MAX_SIZE + 1) = Inr p"
    and dp: "\<And>rest. VarInt_stream_deserialize (p @ rest) = Inr (MAX_SIZE + 1, rest)" by blast
  have s: "serialize_fields [(attr, ''bytes'', nb, dflt)] e = Inr (p @ blob)"
    using p by (simp add: serialize_field_def getattr_def assms serialize_bytes_def
        Bytes_stream_serialize_def)
  have r: "ser_read blob (Some (MAX_SIZE + 1)) = Inl SerializationError"
    by (simp add: ser_read_def)
  have b: "Bytes_stream_deserialize (p @ blob) = Inl SerializationError"
    unfolding Bytes_stream_deserialize_def dp using r by simp
  have d: "deserialize_fields [(attr, ''bytes'', nb, dflt)] e1 (p @ blob) = Inl SerializationError"
    for e1
    by (simp add: b)
  from s d show ?thesis by blast
qed

lemma clams_fields_split:
  "tx_fields ClamsPreset =
     [(''nVersion'', ''<i'', Some 4, PyInt 1),
      (''Timestamp'', ''<i'', Some 4, PyInt 0),
      (''vin'', ''inputs'', None, PyNone),
      (''vout'', ''outputs'', None, PyNone),
      (''nLockTime'', ''<I'', Some 4, PyInt 0)] @
     [(''ClamSpeech'', ''bytes'', None, PyBytes [])]"
  by (simp add: tx_fields_Clams)

lemma clams_long_speech_prefix:
  "list_all codec_field
     [(''nVersion'', ''<i'', Some 4, PyInt 1),
      (''Timestamp'', ''<i'', Some 4, PyInt 0),
      (''vin'', ''inputs'', None, PyNone),
      (''vout'', ''outputs'', None, PyNone),
      (''nLockTime'', ''<I'', Some 4, PyInt 0)]"
  "list_all (fits_field clams_long_speech_tx)
     [(''nVersion'', ''<i'', Some 4, PyInt 1),
      (''Timestamp'', ''<i'', Some 4, PyInt 0),
      (''vin'', ''inputs'', None, PyNone),
      (''vout'', ''outputs'', None, PyNone),
      (''nLockTime'', ''<I'', Some 4, PyInt 0)]"
  by (simp_all add: codec_field_def fits_field_def clams_long_speech_tx_def map_of_fmt_i
      map_of_fmt_I int_fits_def)

lemma clams_long_speech_attr:
  "attrs clams_long_speech_tx ''ClamSpeech'' = Some (PyBytes (replicate (MAX_SIZE + 1) 0))"
  "self_fields clams_long_speech_tx = tx_fields ClamsPreset"
  "\<not> valid_entity clams_long_speech_tx"
  by (simp_all add: clams_long_speech_tx_def valid_entity_def tx_fields_Clams fits_field_def)

lemma bitcoin_big_version_facts:
  "self_fields bitcoin_big_version_tx = tx_fields BitcoinPreset"
  "stream_serialize bitcoin_big_version_tx = Inl StructError"
  by (simp_all add: bitcoin_big_version_tx_def stream_serialize_def tx_fields_Bitcoin
      serialize_field_def getattr_def struct_pack_def map_of_fmt_i int_fits_def)

text \<open>
  C1 as stated fails for entities the wire format cannot carry. The Clams transaction
  with a speech of MAX_SIZE + 1 bytes is serialized, but reading the bytes written ends
  in SerializationError: only the reader has the limit. The Bitcoin transaction with
  version 2^31 is not serialized at all: \<open>struct.pack\<close> raises \<open>struct.error\<close>.
\<close>

theorem roundtrip_fails_outside_encoding:
  "self_fields clams_long_speech_tx = tx_fields ClamsPreset \<and>
   (\<exists>bs. stream_serialize clams_long_speech_tx = Inr bs \<and>
      stream_deserialize (snd (set_to_preset ''Clams'' start_state)) bs = Inl SerializationError) \<and>
   self_fields bitcoin_big_version_tx = tx_fields BitcoinPreset \<and>
   stream_serialize bitcoin_big_version_tx = Inl StructError"
proof -
  let ?s = "snd (set_to_preset ''Clams'' start_state)"
  let ?pre = "[(''nVersion'', ''<i'', Some 4, PyInt 1),
      (''Timestamp'', ''<i'', Some 4, PyInt 0),
      (''vin'', ''inputs'', None, PyNone),
      (''vout'', ''outputs'', None, PyNone),
      (''nLockTime'', ''<I'', Some 4, PyInt (0::int))]"
  let ?sp = "[(''ClamSpeech'', ''bytes'', None :: nat option, PyBytes [])]"
  have g: "g_transaction_fields ?s = tx_fields ClamsPreset"
    by (rule g_fields_after_preset [OF presets_Clams])
  from fields_prefix_roundtrip [OF clams_long_speech_prefix] obtain b1 where
    s1: "\<And>tail. serialize_fields (?pre @ tail) clams_long_speech_tx =
           (case serialize_fields tail clams_long_speech_tx of Inl x \<Rightarrow> Inl x
            | Inr t \<Rightarrow> Inr (b1 @ t))"
    and d1: "\<And>tail e0 rest. \<exists>e1. deserialize_fields (?pre @ tail) e0 (b1 @ rest) =
           deserialize_fields tail e1 rest" by blast
  from long_blob_field [OF clams_long_speech_attr(1), of None "PyBytes []"] obtain b2 where
    s2: "serialize_fields ?sp clams_long_speech_tx = Inr b2"
    and d2: "\<And>e1. deserialize_fields ?sp e1 b2 = Inl SerializationError" by auto
  have ser: "stream_serialize clams_long_speech_tx = Inr (b1 @ b2)"
    unfolding stream_serialize_def clams_long_speech_attr(2) clams_fields_split s1 s2 by simp
  from stream_deserialize_fields [of ?s "b1 @ b2"] obtain e0 where
    "stream_deserialize ?s (b1 @ b2) = deserialize_fields (tx_fields ClamsPreset) e0 (b1 @ b2)"
    unfolding g by blast
  moreover from d1 [of ?sp e0 b2] obtain e1 where
    "deserialize_fields (?pre @ ?sp) e0 (b1 @ b2) = deserialize_fields ?sp e1 b2" by blast
  ultimately have des: "stream_deserialize ?s (b1 @ b2) = Inl SerializationError"
    unfolding clams_fields_split d2 by simp
  from ser des have "\<exists>bs. stream_serialize clams_long_speech_tx = Inr bs \<and>
      stream_deserialize ?s bs = Inl SerializationError" by blast
  then show ?thesis
    by (intro conjI clams_long_speech_attr(2) bitcoin_big_version_facts)
qed

end
